theory Spec2Isabelle
  imports Complex_Main
begin

section \<open>Scalars and variable trees\<close>

text \<open>
  A JavaScript number is kept as a \<open>jsnumber\<close>: the mathematical value of the text it
  was read from, or one of the two infinities. The source rounds that value to a binary64
  float; no definition below depends on the rounding. Line numbers, indices and the cursor
  are integral in every path of the source and are kept as \<^typ>\<open>int\<close>.
\<close>

datatype jsnumber = Finite rat | PlusInfinity | MinusInfinity

text \<open>\<open>string | number | boolean | null | undefined\<close>, the type of a node's \<open>value\<close>.\<close>

datatype jsvalue = JUndefined | JNull | JString string | JNumber jsnumber | JBoolean bool

text \<open>
  \<open>interface VariableNode { type?; value?; fields? }\<close>. A \<open>VariableMap\<close> is a JavaScript
  object used as a dictionary: an association list in the object's own-property order.
\<close>

datatype VariableNode =
  VariableNode (node_type: "string option") (node_value: jsvalue)
    (node_fields: "(string \<times> VariableNode) list option")

type_synonym VariableMap = "(string \<times> VariableNode) list"

record SnapshotCaptures =
  locals :: VariableMap
  arguments :: VariableMap

section \<open>Frames\<close>

text \<open>
  The raw frame of the loaded stack trace. Every field the source reads is optional at run
  time; \<open>raw_tokens\<close> is \<open>None\<close> when \<open>frame.tokens\<close> is not an array. A token is
  modelled by the properties the source reads from it: \<open>kind\<close>, \<open>uri.path\<close>,
  \<open>location\<close> and \<open>value\<close>.
\<close>

record StackTraceToken =
  kind :: string
  uri_path :: "string option"
  location :: "int option"
  token_value :: "string option"

record StackTraceFrame =
  raw_id :: "string option"
  raw_content :: "string option"
  raw_tokens :: "StackTraceToken list option"
  raw_file :: "string option"
  raw_function :: "string option"
  raw_line :: "int option"
  raw_column :: "int option"
  raw_snapshotId :: "string option"
  raw_snapshot_id :: "string option"

record StackTrace =
  st_id :: "string option"
  st_frames :: "StackTraceFrame list"
  st_eventId :: "string option"
  st_spanId :: "string option"
  st_traceId :: "string option"
  st_timestamp :: "int option"

record InstrumentationInfo =
  traceId :: "string option"
  spanId :: "string option"
  timestamp :: "int option"
  sourceObjectUri :: "string option"
  stackId :: "string option"
  errorId :: "string option"

record ReplayFrame =
  frame_id :: int
  name :: string
  frame_file :: "string option"
  line :: int
  column :: int
  snapshotId :: "string option"

datatype StepResult = Terminated | Stopped string

text \<open>The nullish coalescing operator \<open>a ?? b\<close> on optional values.\<close>

definition orElse :: "'a option \<Rightarrow> 'a option \<Rightarrow> 'a option" where
  "orElse a b = (case a of Some x \<Rightarrow> Some x | None \<Rightarrow> b)"

text \<open>\<open>String(n)\<close> for a natural number below \<open>10^21\<close>: its decimal digits.\<close>

fun string_of_nat :: "nat \<Rightarrow> string" where
  "string_of_nat n =
     (if n < 10 then [char_of (48 + n)]
      else string_of_nat (n div 10) @ [char_of (48 + n mod 10)])"

declare string_of_nat.simps [simp del]

text \<open>\<open>Array.prototype.find\<close> and \<open>findIndex\<close> (\<open>-1\<close> when no element matches).\<close>

primrec find_first :: "('a \<Rightarrow> bool) \<Rightarrow> 'a list \<Rightarrow> 'a option" where
  "find_first P [] = None"
| "find_first P (x # xs) = (if P x then Some x else find_first P xs)"

primrec findIndex :: "('a \<Rightarrow> bool) \<Rightarrow> 'a list \<Rightarrow> int" where
  "findIndex P [] = -1"
| "findIndex P (x # xs) =
     (if P x then 0 else (let r = findIndex P xs in if r < 0 then -1 else r + 1))"

text \<open>\<open>xs[i]\<close>: \<open>undefined\<close> outside the array.\<close>

definition element_at :: "'a list \<Rightarrow> int \<Rightarrow> 'a option" where
  "element_at xs i = (if 0 \<le> i \<and> i < int (length xs) then Some (xs ! nat i) else None)"

text \<open>
  \<open>path.normalize\<close> of the Node library is a parameter \<open>pnorm\<close> of every function that
  calls it.
\<close>

definition normalizeFilePath :: "(string \<Rightarrow> string) \<Rightarrow> string option \<Rightarrow> string option" where
  "normalizeFilePath pnorm maybePath =
     (case maybePath of
        None \<Rightarrow> None
      | Some p \<Rightarrow>
          if p = [] then None
          else if take 7 p = ''file://'' then Some (pnorm (drop 7 p))
          else Some (pnorm p))"

definition extractRuntimeCoordinate :: "StackTraceFrame \<Rightarrow> StackTraceToken option" where
  "extractRuntimeCoordinate frame =
     (let tokens = (case raw_tokens frame of Some ts \<Rightarrow> ts | None \<Rightarrow> []) in
      case find_first (\<lambda>t. kind t = ''runtimeCoordinate'') tokens of
        Some coord \<Rightarrow> Some coord
      | None \<Rightarrow> find_first (\<lambda>t. kind t = ''repositoryCoordinate'') tokens)"

definition extractFunctionName :: "StackTraceFrame \<Rightarrow> string option" where
  "extractFunctionName frame =
     (let tokens = (case raw_tokens frame of Some ts \<Rightarrow> ts | None \<Rightarrow> []) in
      case find_first (\<lambda>t. kind t = ''functionName'') tokens of
        Some func \<Rightarrow> token_value func
      | None \<Rightarrow> None)"

definition buildFrame :: "(string \<Rightarrow> string) \<Rightarrow> StackTraceFrame \<Rightarrow> nat \<Rightarrow> ReplayFrame" where
  "buildFrame pnorm frame idx =
     (let runtimeCoordinate = extractRuntimeCoordinate frame in
      \<lparr> frame_id = int idx,
        name =
          (case orElse (raw_function frame)
                  (orElse (extractFunctionName frame) (raw_content frame)) of
             Some n \<Rightarrow> n
           | None \<Rightarrow>
               (case raw_id frame of
                  Some i \<Rightarrow> i
                | None \<Rightarrow> ''frame-'' @ string_of_nat idx)),
        frame_file =
          orElse (normalizeFilePath pnorm (raw_file frame))
            (normalizeFilePath pnorm
               (case runtimeCoordinate of Some c \<Rightarrow> uri_path c | None \<Rightarrow> None)),
        line =
          (case raw_line frame of
             Some l \<Rightarrow> l + 1
           | None \<Rightarrow>
               (case (case runtimeCoordinate of Some c \<Rightarrow> location c | None \<Rightarrow> None) of
                  Some l \<Rightarrow> l + 1
                | None \<Rightarrow> 1)),
        column = (case raw_column frame of Some c \<Rightarrow> c + 1 | None \<Rightarrow> 1),
        snapshotId = orElse (raw_snapshotId frame) (raw_snapshot_id frame) \<rparr>)"

definition buildFrames :: "(string \<Rightarrow> string) \<Rightarrow> StackTraceFrame list \<Rightarrow> ReplayFrame list" where
  "buildFrames pnorm fs = rev (map (\<lambda>(frame, idx). buildFrame pnorm frame idx) (zip fs [0..<length fs]))"

text \<open>\<open>!!frame.snapshotId\<close>: a snapshot identifier that is present and not the empty string.\<close>

definition has_snapshot :: "ReplayFrame \<Rightarrow> bool" where
  "has_snapshot f = (case snapshotId f of None \<Rightarrow> False | Some s \<Rightarrow> s \<noteq> [])"

definition findInitialFrame :: "ReplayFrame list \<Rightarrow> int" where
  "findInitialFrame fs =
     (if fs = [] then 0
      else (let idx = findIndex has_snapshot (rev fs) in
            if idx \<ge> 0 then int (length fs) - 1 - idx else int (length fs) - 1))"

section \<open>The replay runtime\<close>

text \<open>
  \<open>class ReplayRuntime\<close>. A \<open>Set<number>\<close> of lines is the list of its members in insertion
  order. The data source is outside the program: \<open>loaderCalls\<close> records the snapshot
  identifiers it has been asked for, oldest first.
\<close>

record ReplayRuntime =
  instrumentationInfo :: InstrumentationInfo
  frames :: "ReplayFrame list"
  breakpoints :: "string \<rightharpoonup> int list"
  variablesCache :: "string \<rightharpoonup> SnapshotCaptures"
  cursor :: int
  loaderCalls :: "string list"

definition new_ReplayRuntime ::
  "(string \<Rightarrow> string) \<Rightarrow> StackTrace \<Rightarrow> InstrumentationInfo option \<Rightarrow> ReplayRuntime" where
  "new_ReplayRuntime pnorm stackTrace info =
     (let get = (\<lambda>sel. case info of Some i \<Rightarrow> sel i | None \<Rightarrow> None);
          fs = buildFrames pnorm (st_frames stackTrace) in
      \<lparr> instrumentationInfo =
          \<lparr> traceId = orElse (st_traceId stackTrace) (get traceId),
            spanId = orElse (st_spanId stackTrace) (get spanId),
            timestamp = orElse (st_timestamp stackTrace) (case info of Some i \<Rightarrow> timestamp i | None \<Rightarrow> None),
            sourceObjectUri = get sourceObjectUri,
            stackId = orElse (st_id stackTrace) (get stackId),
            errorId = orElse (st_eventId stackTrace) (get errorId) \<rparr>,
        frames = fs,
        breakpoints = Map.empty,
        variablesCache = Map.empty,
        cursor = findInitialFrame fs,
        loaderCalls = [] \<rparr>)"

definition isTerminated :: "ReplayRuntime \<Rightarrow> bool" where
  "isTerminated rt = (cursor rt \<ge> int (length (frames rt)) \<or> cursor rt < 0)"

definition currentFrameIndex :: "ReplayRuntime \<Rightarrow> int" where
  "currentFrameIndex rt = min (cursor rt) (max 0 (int (length (frames rt)) - 1))"

definition getSnapshotIdForFrame :: "ReplayRuntime \<Rightarrow> int \<Rightarrow> string option" where
  "getSnapshotIdForFrame rt frameId =
     (case find_first (\<lambda>f. frame_id f = frameId) (frames rt) of
        Some f \<Rightarrow> snapshotId f
      | None \<Rightarrow> None)"

definition getCurrentSnapshotId :: "ReplayRuntime \<Rightarrow> string option" where
  "getCurrentSnapshotId rt =
     (case element_at (frames rt) (currentFrameIndex rt) of
        Some f \<Rightarrow> snapshotId f
      | None \<Rightarrow> None)"

definition setCursorByFrameId :: "int \<Rightarrow> ReplayRuntime \<Rightarrow> ReplayRuntime" where
  "setCursorByFrameId frameId rt =
     (let idx = findIndex (\<lambda>f. frame_id f = frameId) (frames rt) in
      if idx \<ge> 0 then rt\<lparr>cursor := idx\<rparr> else rt)"

definition setCursorByLocation ::
  "(string \<Rightarrow> string) \<Rightarrow> string option \<Rightarrow> int option \<Rightarrow> ReplayRuntime \<Rightarrow> ReplayRuntime" where
  "setCursorByLocation pnorm filePath line_opt rt =
     (case line_opt of
        None \<Rightarrow> rt
      | Some l \<Rightarrow>
          if frames rt = [] then rt
          else
            (let normalizedFile =
                   (case filePath of
                      None \<Rightarrow> None
                    | Some p \<Rightarrow> if p = [] then None else Some (pnorm p));
                 idx = findIndex
                   (\<lambda>f. (case normalizedFile of
                            None \<Rightarrow> True
                          | Some nf \<Rightarrow>
                              if nf = [] then True
                              else pnorm (case frame_file f of Some x \<Rightarrow> x | None \<Rightarrow> []) = nf)
                         \<and> line f = l)
                   (frames rt) in
             if idx \<ge> 0 then rt\<lparr>cursor := idx\<rparr> else rt))"

text \<open>\<open>new Set(lines)\<close> then \<open>Array.from\<close>: the first occurrence of every line, in order.\<close>

definition uniqueLines :: "int list \<Rightarrow> int list" where
  "uniqueLines ls = rev (remdups (rev ls))"

definition setBreakpoints ::
  "(string \<Rightarrow> string) \<Rightarrow> string option \<Rightarrow> int list \<Rightarrow> ReplayRuntime \<Rightarrow> int list \<times> ReplayRuntime" where
  "setBreakpoints pnorm sourcePath ls rt =
     (case sourcePath of
        None \<Rightarrow> ([], rt)
      | Some p \<Rightarrow>
          if p = [] then ([], rt)
          else (let normalized = pnorm p; u = uniqueLines ls in
                (u, rt\<lparr>breakpoints := (breakpoints rt)(normalized \<mapsto> u)\<rparr>)))"

definition hitsBreakpoint ::
  "(string \<Rightarrow> string) \<Rightarrow> (string \<rightharpoonup> int list) \<Rightarrow> ReplayFrame option \<Rightarrow> bool" where
  "hitsBreakpoint pnorm bps frame =
     (case frame of
        None \<Rightarrow> False
      | Some f \<Rightarrow>
          (case frame_file f of
             None \<Rightarrow> False
           | Some p \<Rightarrow>
               if p = [] then False
               else (case bps (pnorm p) of
                       None \<Rightarrow> False
                     | Some s \<Rightarrow> line f \<in> set s)))"

function findNextBreakpointIndex ::
  "(string \<Rightarrow> string) \<Rightarrow> (string \<rightharpoonup> int list) \<Rightarrow> ReplayFrame list \<Rightarrow> int \<Rightarrow> int" where
  "findNextBreakpointIndex pnorm bps fs i =
     (if i < int (length fs) then
        (if hitsBreakpoint pnorm bps (element_at fs i) then i
         else findNextBreakpointIndex pnorm bps fs (i + 1))
      else -1)"
  by pat_completeness auto
termination
  by (relation "measure (\<lambda>(pnorm, bps, fs, i). nat (int (length fs) - i))") auto

declare findNextBreakpointIndex.simps [simp del]

definition stepOnce ::
  "(string \<Rightarrow> string) \<Rightarrow> string option \<Rightarrow> ReplayRuntime \<Rightarrow> StepResult \<times> ReplayRuntime" where
  "stepOnce pnorm reason rt =
     (if cursor rt + 1 \<ge> int (length (frames rt)) then
        (Terminated, rt\<lparr>cursor := int (length (frames rt))\<rparr>)
      else
        (let rt' = rt\<lparr>cursor := cursor rt + 1\<rparr>;
             frame = element_at (frames rt') (cursor rt') in
         if hitsBreakpoint pnorm (breakpoints rt') frame then (Stopped ''breakpoint'', rt')
         else (Stopped (case reason of Some r \<Rightarrow> r | None \<Rightarrow> ''step''), rt')))"

definition continueExecution ::
  "(string \<Rightarrow> string) \<Rightarrow> ReplayRuntime \<Rightarrow> StepResult \<times> ReplayRuntime" where
  "continueExecution pnorm rt =
     (let nextIdx = findNextBreakpointIndex pnorm (breakpoints rt) (frames rt) (cursor rt + 1) in
      if nextIdx = -1 then (Terminated, rt\<lparr>cursor := int (length (frames rt))\<rparr>)
      else (Stopped ''breakpoint'', rt\<lparr>cursor := nextIdx\<rparr>))"

text \<open>\<open>frames.slice(0, cursor + 1).reverse()\<close>; \<open>slice\<close> clamps its end to the length.\<close>

definition getOrderedFrames :: "ReplayRuntime \<Rightarrow> ReplayFrame list" where
  "getOrderedFrames rt =
     (if frames rt = [] \<or> cursor rt < 0 then []
      else rev (take (nat (cursor rt + 1)) (frames rt)))"

definition getAllFrames :: "ReplayRuntime \<Rightarrow> ReplayFrame list" where
  "getAllFrames rt = frames rt"

definition totalFrames :: "ReplayRuntime \<Rightarrow> int" where
  "totalFrames rt = int (length (frames rt))"


text \<open>The operations a session performs on a runtime, as a sequence.\<close>

datatype RuntimeOp =
    StepOnce "string option"
  | ContinueExecution
  | SetCursorByFrameId int
  | SetCursorByLocation "string option" "int option"
  | SetBreakpoints "string option" "int list"

fun applyOp :: "(string \<Rightarrow> string) \<Rightarrow> RuntimeOp \<Rightarrow> ReplayRuntime \<Rightarrow> ReplayRuntime" where
  "applyOp pnorm (StepOnce reason) rt = snd (stepOnce pnorm reason rt)"
| "applyOp pnorm ContinueExecution rt = snd (continueExecution pnorm rt)"
| "applyOp pnorm (SetCursorByFrameId frameId) rt = setCursorByFrameId frameId rt"
| "applyOp pnorm (SetCursorByLocation filePath l) rt = setCursorByLocation pnorm filePath l rt"
| "applyOp pnorm (SetBreakpoints sourcePath ls) rt = snd (setBreakpoints pnorm sourcePath ls rt)"

definition runOps :: "(string \<Rightarrow> string) \<Rightarrow> RuntimeOp list \<Rightarrow> ReplayRuntime \<Rightarrow> ReplayRuntime" where
  "runOps pnorm ops rt = foldl (\<lambda>r op. applyOp pnorm op r) rt ops"

text \<open>A frame index at which \<open>hitsBreakpoint\<close> holds for the given store.\<close>

definition hitsAt ::
  "(string \<Rightarrow> string) \<Rightarrow> (string \<rightharpoonup> int list) \<Rightarrow> ReplayFrame list \<Rightarrow> int \<Rightarrow> bool" where
  "hitsAt pnorm bps fs j = hitsBreakpoint pnorm bps (element_at fs j)"

text \<open>The cursor invariant: a position in \<open>[0, frameCount]\<close>.\<close>

definition cursor_ok :: "ReplayRuntime \<Rightarrow> bool" where
  "cursor_ok rt = (0 \<le> cursor rt \<and> cursor rt \<le> int (length (frames rt)))"

text \<open>
  The frames that match one path and its lines, in the words of the specification: the
  frame has a file (an empty one counts as none, as in \<open>normalizeFilePath\<close>), its normal
  form is the normal form of the path, and its line is one of the lines.
\<close>

definition matchesPathLine ::
  "(string \<Rightarrow> string) \<Rightarrow> string \<Rightarrow> int list \<Rightarrow> ReplayFrame list \<Rightarrow> int \<Rightarrow> bool" where
  "matchesPathLine pnorm p ls fs j =
     (case element_at fs j of
        None \<Rightarrow> False
      | Some f \<Rightarrow>
          (case frame_file f of
             None \<Rightarrow> False
           | Some q \<Rightarrow> q \<noteq> [] \<and> pnorm q = pnorm p \<and> line f \<in> set ls))"

section \<open>Reading numbers\<close>

text \<open>
  \<open>Number(s)\<close> on a string is the StringToNumber operation of the language: white space
  is trimmed, the empty string is 0, and the rest must be \<open>Infinity\<close> or a decimal literal
  with an optional sign, or an unsigned binary, octal or hexadecimal integer literal;
  anything else is \<open>NaN\<close>, here \<open>None\<close>. Characters are limited to ASCII, so the white
  space is tab, line feed, vertical tab, form feed, carriage return and space.
\<close>

definition isStrWhiteSpaceChar :: "char \<Rightarrow> bool" where
  "isStrWhiteSpaceChar c = ((of_char c :: nat) \<in> {9, 10, 11, 12, 13, 32})"

definition trimString :: "string \<Rightarrow> string" where
  "trimString s = rev (dropWhile isStrWhiteSpaceChar (rev (dropWhile isStrWhiteSpaceChar s)))"

definition isDecimalDigit :: "char \<Rightarrow> bool" where
  "isDecimalDigit c = (48 \<le> (of_char c :: nat) \<and> (of_char c :: nat) \<le> 57)"

text \<open>The value of a digit in a radix up to 16, when it is one.\<close>

definition digitValue :: "nat \<Rightarrow> char \<Rightarrow> nat option" where
  "digitValue radix c =
     (let n = (of_char c :: nat);
          v = (if 48 \<le> n \<and> n \<le> 57 then Some (n - 48)
               else if 97 \<le> n \<and> n \<le> 102 then Some (n - 87)
               else if 65 \<le> n \<and> n \<le> 70 then Some (n - 55)
               else None) in
      case v of None \<Rightarrow> None | Some d \<Rightarrow> if d < radix then Some d else None)"

primrec digitsValue :: "nat \<Rightarrow> nat \<Rightarrow> string \<Rightarrow> nat option" where
  "digitsValue radix acc [] = Some acc"
| "digitsValue radix acc (c # cs) =
     (case digitValue radix c of
        None \<Rightarrow> None
      | Some d \<Rightarrow> digitsValue radix (radix * acc + d) cs)"

text \<open>One or more digits of the radix, as a number.\<close>

definition parseDigits :: "nat \<Rightarrow> string \<Rightarrow> nat option" where
  "parseDigits radix s = (if s = [] then None else digitsValue radix 0 s)"

text \<open>\<open>SignedInteger\<close>: decimal digits after an optional sign.\<close>

definition parseSignedInteger :: "string \<Rightarrow> int option" where
  "parseSignedInteger s =
     (case s of
        [] \<Rightarrow> None
      | c # cs \<Rightarrow>
          if c = CHR ''+'' then map_option int (parseDigits 10 cs)
          else if c = CHR ''-'' then map_option (\<lambda>n. - int n) (parseDigits 10 cs)
          else map_option int (parseDigits 10 s))"

definition scaleByPowerOfTen :: "nat \<Rightarrow> int \<Rightarrow> rat" where
  "scaleByPowerOfTen m e = (if 0 \<le> e then of_nat m * 10 ^ nat e else of_nat m / 10 ^ nat (- e))"

text \<open>
  \<open>StrUnsignedDecimalLiteral\<close>: \<open>Infinity\<close>, or digits with an optional fraction and an
  optional exponent, where the digits before or after the point may be missing but not both.
\<close>

definition parseUnsignedDecimal :: "string \<Rightarrow> jsnumber option" where
  "parseUnsignedDecimal s =
     (if s = ''Infinity'' then Some PlusInfinity
      else
        (let ip = takeWhile isDecimalDigit s;
             r1 = dropWhile isDecimalDigit s;
             dot = (r1 \<noteq> [] \<and> hd r1 = CHR ''.'');
             fp = (if dot then takeWhile isDecimalDigit (tl r1) else []);
             r2 = (if dot then dropWhile isDecimalDigit (tl r1) else r1);
             ex = (if r2 = [] then Some 0
                   else if hd r2 = CHR ''e'' \<or> hd r2 = CHR ''E'' then parseSignedInteger (tl r2)
                   else None) in
         if ip = [] \<and> fp = [] then None
         else
           (case (digitsValue 10 0 (ip @ fp), ex) of
              (Some m, Some e) \<Rightarrow> Some (Finite (scaleByPowerOfTen m (e - int (length fp))))
            | _ \<Rightarrow> None)))"

definition negateNumber :: "jsnumber \<Rightarrow> jsnumber" where
  "negateNumber n =
     (case n of Finite q \<Rightarrow> Finite (- q) | PlusInfinity \<Rightarrow> MinusInfinity
      | MinusInfinity \<Rightarrow> PlusInfinity)"

definition js_Number :: "string \<Rightarrow> jsnumber option" where
  "js_Number str =
     (let s = trimString str in
      if s = [] then Some (Finite 0)
      else if take 2 s = ''0x'' \<or> take 2 s = ''0X'' then
        map_option (\<lambda>n. Finite (of_nat n)) (parseDigits 16 (drop 2 s))
      else if take 2 s = ''0o'' \<or> take 2 s = ''0O'' then
        map_option (\<lambda>n. Finite (of_nat n)) (parseDigits 8 (drop 2 s))
      else if take 2 s = ''0b'' \<or> take 2 s = ''0B'' then
        map_option (\<lambda>n. Finite (of_nat n)) (parseDigits 2 (drop 2 s))
      else if hd s = CHR ''+'' then parseUnsignedDecimal (tl s)
      else if hd s = CHR ''-'' then map_option negateNumber (parseUnsignedDecimal (tl s))
      else parseUnsignedDecimal s)"

definition coerceValue :: "string option \<Rightarrow> string option \<Rightarrow> jsvalue" where
  "coerceValue valuePreview type =
     (case valuePreview of
        None \<Rightarrow> (case type of None \<Rightarrow> JUndefined | Some t \<Rightarrow> JString t)
      | Some v \<Rightarrow>
          if type = Some ''number'' then
            (case js_Number v of None \<Rightarrow> JString v | Some n \<Rightarrow> JNumber n)
          else if type = Some ''boolean'' \<and> v = ''true'' then JBoolean True
          else if type = Some ''boolean'' \<and> v = ''false'' then JBoolean False
          else if v = ''null'' then JNull
          else JString v)"

section \<open>Recorded payloads and their normal form\<close>

text \<open>
  \<open>type VariablePayload\<close>, with the fields the adapter reads. \<open>PUndefined\<close> is an
  absent payload; \<open>p_isNull\<close> is the truthiness of \<open>isNull\<close>; \<open>p_elements\<close> and
  \<open>p_entries\<close> are \<open>None\<close> when the property is not an array.
\<close>

datatype VariablePayload =
    PUndefined
  | Payload (p_type: "string option") (p_isNull: bool) (p_value: "string option")
      (p_elements: "VariablePayload list option")
      (p_entries: "(VariablePayload \<times> VariablePayload) list option")
      (p_fields: "(string \<times> VariablePayload) list option")

text \<open>\<open>type Variables\<close>: the two records of a loaded snapshot, either of which may be absent.\<close>

record Variables =
  var_arguments :: "(string \<times> VariablePayload) list option"
  var_locals :: "(string \<times> VariablePayload) list option"

subsection \<open>Objects as ordered dictionaries\<close>

text \<open>
  The own keys of a JavaScript object are enumerated with the array indices first, in
  ascending numeric order, and the other keys after them in the order they were created.
  An array index is the decimal text, without a leading zero, of an integer up to
  \<open>2^32 - 2\<close>.
\<close>

definition arrayIndex :: "string \<Rightarrow> nat option" where
  "arrayIndex k =
     (if k = [] \<or> \<not> list_all isDecimalDigit k then None
      else if hd k = CHR ''0'' \<and> length k > 1 then None
      else (case digitsValue 10 0 k of
              None \<Rightarrow> None
            | Some n \<Rightarrow> if n \<le> 4294967294 then Some n else None))"

text \<open>Lookup of an own property, \<open>obj[key]\<close>.\<close>

definition getProperty :: "(string \<times> 'a) list \<Rightarrow> string \<Rightarrow> 'a option" where
  "getProperty obj k = map_of obj k"

text \<open>The place of a new array index among the keys: before the first key that follows it.\<close>

primrec insertIndexKey :: "nat \<Rightarrow> string \<Rightarrow> 'a \<Rightarrow> (string \<times> 'a) list \<Rightarrow> (string \<times> 'a) list" where
  "insertIndexKey n k v [] = [(k, v)]"
| "insertIndexKey n k v (e # es) =
     (case arrayIndex (fst e) of
        None \<Rightarrow> (k, v) # e # es
      | Some m \<Rightarrow> if n < m then (k, v) # e # es else e # insertIndexKey n k v es)"

text \<open>The assignment \<open>obj[key] = value\<close>.\<close>

definition setProperty :: "string \<Rightarrow> 'a \<Rightarrow> (string \<times> 'a) list \<Rightarrow> (string \<times> 'a) list" where
  "setProperty k v obj =
     (if k \<in> fst ` set obj then map (\<lambda>e. if fst e = k then (k, v) else e) obj
      else (case arrayIndex k of
              None \<Rightarrow> obj @ [(k, v)]
            | Some n \<Rightarrow> insertIndexKey n k v obj))"

text \<open>An object built from \<open>{}\<close> by one assignment after another.\<close>

definition objectOf :: "(string \<times> 'a) list \<Rightarrow> (string \<times> 'a) list" where
  "objectOf kvs = foldl (\<lambda>obj kv. setProperty (fst kv) (snd kv) obj) [] kvs"

subsection \<open>Normalisation\<close>

definition extractKeyFromPayload :: "VariablePayload \<Rightarrow> nat \<Rightarrow> string" where
  "extractKeyFromPayload payload idx =
     (case payload of
        PUndefined \<Rightarrow> string_of_nat idx
      | Payload t isNull v els ents flds \<Rightarrow>
          (case v of
             Some s \<Rightarrow> s
           | None \<Rightarrow>
               (case flds of
                  None \<Rightarrow> string_of_nat idx
                | Some fs \<Rightarrow>
                    (let valueOf = (\<lambda>k. case getProperty fs k of
                                           Some (Payload t' n' v' e' en' f') \<Rightarrow> v'
                                         | _ \<Rightarrow> None) in
                     case orElse (valueOf ''id'') (orElse (valueOf ''name'') (valueOf ''key'')) of
                       Some s \<Rightarrow> s
                     | None \<Rightarrow> string_of_nat idx))))"

fun toVariableNode :: "VariablePayload \<Rightarrow> VariableNode" where
  "toVariableNode PUndefined = VariableNode None JUndefined None"
| "toVariableNode (Payload t isNull v els ents flds) =
     (if isNull then VariableNode (Some (case t of Some x \<Rightarrow> x | None \<Rightarrow> ''null'')) JNull None
      else
        (case v of
           Some s \<Rightarrow> VariableNode t (coerceValue (Some s) t) None
         | None \<Rightarrow>
             (case els of
                Some es \<Rightarrow>
                  VariableNode (Some (case t of Some x \<Rightarrow> x | None \<Rightarrow> ''array'')) JUndefined
                    (Some (objectOf (zip (map string_of_nat [0..<length es])
                                         (map toVariableNode es))))
              | None \<Rightarrow>
                  (case ents of
                     Some en \<Rightarrow>
                       VariableNode (Some (case t of Some x \<Rightarrow> x | None \<Rightarrow> ''map'')) JUndefined
                         (Some (objectOf
                            (zip (map (\<lambda>(e, idx). extractKeyFromPayload (fst e) idx)
                                      (zip en [0..<length en]))
                                 (map (\<lambda>e. toVariableNode (snd e)) en))))
                   | None \<Rightarrow>
                       (case flds of
                          Some fs \<Rightarrow>
                            VariableNode (Some (case t of Some x \<Rightarrow> x | None \<Rightarrow> ''object''))
                              JUndefined
                              (Some (objectOf (map (\<lambda>kv. (fst kv, toVariableNode (snd kv))) fs)))
                        | None \<Rightarrow> VariableNode t JUndefined None)))))"

definition toVariableMap :: "(string \<times> VariablePayload) list \<Rightarrow> VariableMap" where
  "toVariableMap record = objectOf (map (\<lambda>kv. (fst kv, toVariableNode (snd kv))) record)"

definition normalizeVariables :: "Variables option \<Rightarrow> SnapshotCaptures" where
  "normalizeVariables variables =
     \<lparr> locals =
         toVariableMap (case variables of
                          None \<Rightarrow> []
                        | Some vs \<Rightarrow> (case var_locals vs of Some l \<Rightarrow> l | None \<Rightarrow> [])),
       arguments =
         toVariableMap (case variables of
                          None \<Rightarrow> []
                        | Some vs \<Rightarrow> (case var_arguments vs of Some a \<Rightarrow> a | None \<Rightarrow> [])) \<rparr>"

section \<open>Loading and caching variables\<close>

text \<open>
  \<open>dataSource.loadVariables\<close> is outside the program. It is a parameter \<open>loader\<close> that
  maps the identifiers asked for so far and the identifier asked for now to the outcome
  of the promise: it resolves to a bundle or to nothing, or it rejects. The timestamp and
  the context that the call also passes are those of the runtime (or the clock) and are
  left to the loader. An asynchronous
  function of the runtime returns \<open>Inl\<close> of the error it rejects with, or \<open>Inr\<close> of its
  result, together with the runtime after the call; the calls are sequential, each awaited
  before the next.
\<close>

datatype LoadError = LoaderRejected string

datatype LoadOutcome = Resolves "Variables option" | Rejects LoadError

type_synonym Loader = "string list \<Rightarrow> string \<Rightarrow> LoadOutcome"

definition emptyCaptures :: SnapshotCaptures where
  "emptyCaptures = \<lparr> locals = [], arguments = [] \<rparr>"

text \<open>The body of the \<open>try\<close> block of \<open>fetchVariables\<close>: the awaited call, then the normalisation.\<close>

definition fetchVariables_try ::
  "Loader \<Rightarrow> string \<Rightarrow> ReplayRuntime \<Rightarrow> (LoadError + SnapshotCaptures) \<times> ReplayRuntime" where
  "fetchVariables_try loader sid rt =
     (let rt' = rt\<lparr>loaderCalls := loaderCalls rt @ [sid]\<rparr> in
      case loader (loaderCalls rt) sid of
        Rejects e \<Rightarrow> (Inl e, rt')
      | Resolves result \<Rightarrow> (Inr (normalizeVariables result), rt'))"

definition fetchVariables ::
  "Loader \<Rightarrow> string \<Rightarrow> ReplayRuntime \<Rightarrow> (LoadError + SnapshotCaptures) \<times> ReplayRuntime" where
  "fetchVariables loader sid rt =
     (case fetchVariables_try loader sid rt of
        (Inl e, rt') \<Rightarrow> (Inr emptyCaptures, rt')
      | (Inr captures, rt') \<Rightarrow> (Inr captures, rt'))"

definition getOrLoadVariables ::
  "Loader \<Rightarrow> string \<Rightarrow> ReplayRuntime \<Rightarrow> (LoadError + SnapshotCaptures) \<times> ReplayRuntime" where
  "getOrLoadVariables loader sid rt =
     (case variablesCache rt sid of
        Some cached \<Rightarrow> (Inr cached, rt)
      | None \<Rightarrow>
          (case fetchVariables loader sid rt of
             (Inl e, rt') \<Rightarrow> (Inl e, rt')
           | (Inr variables, rt') \<Rightarrow>
               (Inr variables, rt'\<lparr>variablesCache := (variablesCache rt')(sid \<mapsto> variables)\<rparr>)))"

definition getLocals ::
  "Loader \<Rightarrow> string option \<Rightarrow> ReplayRuntime \<Rightarrow> (LoadError + VariableMap) \<times> ReplayRuntime" where
  "getLocals loader sid_opt rt =
     (case sid_opt of
        None \<Rightarrow> (Inr [], rt)
      | Some sid \<Rightarrow>
          if sid = [] then (Inr [], rt)
          else (case getOrLoadVariables loader sid rt of
                  (Inl e, rt') \<Rightarrow> (Inl e, rt')
                | (Inr variables, rt') \<Rightarrow> (Inr (locals variables), rt')))"

definition getArguments ::
  "Loader \<Rightarrow> string option \<Rightarrow> ReplayRuntime \<Rightarrow> (LoadError + VariableMap) \<times> ReplayRuntime" where
  "getArguments loader sid_opt rt =
     (case sid_opt of
        None \<Rightarrow> (Inr [], rt)
      | Some sid \<Rightarrow>
          if sid = [] then (Inr [], rt)
          else (case getOrLoadVariables loader sid rt of
                  (Inl e, rt') \<Rightarrow> (Inl e, rt')
                | (Inr variables, rt') \<Rightarrow> (Inr (arguments variables), rt')))"

definition getMeta :: "ReplayRuntime \<Rightarrow> string option \<Rightarrow> VariableMap" where
  "getMeta rt sid_opt =
     (let text = (\<lambda>v. VariableNode (Some ''string'') (JString v) None);
          info = instrumentationInfo rt in
      [(''snapshotId'', text (case sid_opt of Some s \<Rightarrow> s | None \<Rightarrow> ''n/a'')),
       (''traceId'', text (case traceId info of Some s \<Rightarrow> s | None \<Rightarrow> [])),
       (''spanId'', text (case spanId info of Some s \<Rightarrow> s | None \<Rightarrow> [])),
       (''sourceObjectUri'', text (case sourceObjectUri info of Some s \<Rightarrow> s | None \<Rightarrow> []))])"

text \<open>
  The calls a session makes on its runtime, one after the other: the navigation and the
  two variable queries.
\<close>

datatype RuntimeCall =
    Navigate RuntimeOp
  | GetLocals "string option"
  | GetArguments "string option"

fun applyCall :: "Loader \<Rightarrow> (string \<Rightarrow> string) \<Rightarrow> RuntimeCall \<Rightarrow> ReplayRuntime \<Rightarrow> ReplayRuntime" where
  "applyCall loader pnorm (Navigate op) rt = applyOp pnorm op rt"
| "applyCall loader pnorm (GetLocals sid) rt = snd (getLocals loader sid rt)"
| "applyCall loader pnorm (GetArguments sid) rt = snd (getArguments loader sid rt)"

definition runCalls ::
  "Loader \<Rightarrow> (string \<Rightarrow> string) \<Rightarrow> RuntimeCall list \<Rightarrow> ReplayRuntime \<Rightarrow> ReplayRuntime" where
  "runCalls loader pnorm calls rt = foldl (\<lambda>r c. applyCall loader pnorm c r) rt calls"

text \<open>The bundle a fetch of a snapshot gives: the normal form of what the loader resolves to.\<close>

definition fetchedBundle :: "Loader \<Rightarrow> string list \<Rightarrow> string \<Rightarrow> SnapshotCaptures" where
  "fetchedBundle loader history sid =
     (case loader history sid of
        Resolves result \<Rightarrow> normalizeVariables result
      | Rejects e \<Rightarrow> emptyCaptures)"

text \<open>Every identifier the loader was asked for is cached, and none was asked for twice.\<close>

definition cache_ok :: "ReplayRuntime \<Rightarrow> bool" where
  "cache_ok rt = (distinct (loaderCalls rt) \<and> set (loaderCalls rt) \<subseteq> dom (variablesCache rt))"

section \<open>Value previews\<close>

text \<open>
  Texts are ASCII. The one character beyond ASCII that the adapter itself writes is the
  horizontal ellipsis, which stands here as the three bytes of its UTF-8 form.
  \<open>String(n)\<close> on a number that is not a small natural number is the float printing of
  the language, a parameter \<open>numberToString\<close> of the functions that call it.
\<close>

definition ellipsis :: string where
  "ellipsis = [char_of (226 :: nat), char_of (128 :: nat), char_of (166 :: nat)]"

definition joinWith :: "string \<Rightarrow> string list \<Rightarrow> string" where
  "joinWith sep xs = (case xs of [] \<Rightarrow> [] | y # ys \<Rightarrow> foldl (\<lambda>acc x. acc @ sep @ x) y ys)"

text \<open>The regular expression \<open>/^\<hyphen>?\d+(\.\d+)?$/\<close>.\<close>

definition looksNumeric :: "string \<Rightarrow> bool" where
  "looksNumeric v =
     (let s = (if v \<noteq> [] \<and> hd v = CHR ''-'' then tl v else v);
          ip = takeWhile isDecimalDigit s;
          r = dropWhile isDecimalDigit s in
      ip \<noteq> [] \<and> (r = [] \<or> (hd r = CHR ''.'' \<and> tl r \<noteq> [] \<and> list_all isDecimalDigit (tl r))))"

text \<open>The regular expression \<open>/^\d+$/\<close>.\<close>

definition allDigits :: "string \<Rightarrow> bool" where
  "allDigits k = (k \<noteq> [] \<and> list_all isDecimalDigit k)"

text \<open>\<open>raw.split(/\r?\n/)[0]\<close>: the text before the first line break.\<close>

fun firstLine :: "string \<Rightarrow> string" where
  "firstLine [] = []"
| "firstLine (c # cs) =
     (if c = char_of (10 :: nat) then []
      else if c = char_of (13 :: nat) \<and> cs \<noteq> [] \<and> hd cs = char_of (10 :: nat) then []
      else c # firstLine cs)"

definition formatFunctionPreview :: "string \<Rightarrow> string" where
  "formatFunctionPreview raw =
     (let l = (if firstLine raw = [] then raw else firstLine raw) in
      if length l > 80 then take 77 l @ ellipsis else l)"

definition formatPrimitive :: "(jsnumber \<Rightarrow> string) \<Rightarrow> VariableNode \<Rightarrow> string" where
  "formatPrimitive numberToString node =
     (case node_value node of
        JNull \<Rightarrow> ''null''
      | JUndefined \<Rightarrow> (case node_type node of Some t \<Rightarrow> t | None \<Rightarrow> ''undefined'')
      | JString v \<Rightarrow>
          if node_type node = Some ''object'' then
            (if v = ''Object'' then ''{'' @ ellipsis @ ''}'' else v)
          else if node_type node = Some ''function'' then formatFunctionPreview v
          else if looksNumeric v then
            (case js_Number v of Some n \<Rightarrow> numberToString n | None \<Rightarrow> ''NaN'')
          else v
      | JNumber n \<Rightarrow> numberToString n
      | JBoolean b \<Rightarrow> if b then ''true'' else ''false'')"

definition isArrayLike :: "string list \<Rightarrow> bool" where
  "isArrayLike keys = (if keys = [] then False else list_all allDigits keys)"

text \<open>
  \<open>parseInt(k, 10)\<close> on a text of decimal digits is the number they denote, exactly so
  below \<open>2^53\<close>.
\<close>

definition parseDecimal :: "string \<Rightarrow> nat" where
  "parseDecimal k = (case digitsValue 10 0 k of Some n \<Rightarrow> n | None \<Rightarrow> 0)"

definition inferArrayLength :: "string list \<Rightarrow> nat" where
  "inferArrayLength keys =
     (if keys = [] then 0
      else (let numeric = map parseDecimal (filter allDigits keys) in
            if numeric = [] then length keys else Max (set numeric) + 1))"

definition previewChild :: "(jsnumber \<Rightarrow> string) \<Rightarrow> VariableNode option \<Rightarrow> string" where
  "previewChild numberToString node_opt =
     (case node_opt of
        None \<Rightarrow> ''undefined''
      | Some node \<Rightarrow>
          if node_value node \<noteq> JUndefined then formatPrimitive numberToString node
          else
            (let flds = (case node_fields node of Some f \<Rightarrow> f | None \<Rightarrow> []);
                 keys = map fst flds in
             if keys = [] then (case node_type node of Some t \<Rightarrow> t | None \<Rightarrow> ''value'')
             else if isArrayLike keys then
               ''Array('' @ string_of_nat (inferArrayLength keys) @ '')''
             else ''{'' @ ellipsis @ ''}''))"

definition formatArrayPreview :: "(jsnumber \<Rightarrow> string) \<Rightarrow> VariableMap \<Rightarrow> string" where
  "formatArrayPreview numberToString flds =
     (let len = inferArrayLength (map fst flds);
          mx = min len 3;
          preview =
            map (\<lambda>i. previewChild numberToString (getProperty flds (string_of_nat i))) [0..<mx]
            @ (if len > mx then [ellipsis] else []) in
      ''('' @ string_of_nat len @ '') ['' @ joinWith '', '' preview @ '']'')"

definition formatObjectPreview :: "(jsnumber \<Rightarrow> string) \<Rightarrow> VariableMap \<Rightarrow> string" where
  "formatObjectPreview numberToString flds =
     (let keys = map fst flds;
          previews =
            map (\<lambda>key. key @ '': '' @ previewChild numberToString (getProperty flds key))
              (take 3 keys)
            @ (if length keys > 3 then [ellipsis] else []) in
      ''{ '' @ joinWith '', '' previews @ '' }'')"

definition formatNodeValue :: "(jsnumber \<Rightarrow> string) \<Rightarrow> VariableNode \<Rightarrow> string" where
  "formatNodeValue numberToString node =
     (if node_value node \<noteq> JUndefined then formatPrimitive numberToString node
      else
        (let flds = (case node_fields node of Some f \<Rightarrow> f | None \<Rightarrow> []);
             keys = map fst flds in
         if keys = [] then (case node_type node of Some t \<Rightarrow> t | None \<Rightarrow> ''value'')
         else if isArrayLike keys then formatArrayPreview numberToString flds
         else formatObjectPreview numberToString flds))"

section \<open>The protocol session\<close>

text \<open>
  \<open>class ErrorReplaySession\<close>. What the session sends to the host is a list of messages
  in the order of the \<open>sendResponse\<close>, \<open>sendErrorResponse\<close> and \<open>sendEvent\<close> calls.
  A request handler is a function from the session to the messages it sends and the
  session after it; the host sends one request after the other has been handled.
\<close>

record Variable =
  v_name :: string
  v_type :: "string option"
  v_value :: string
  variablesReference :: int

datatype Event =
    InitializedEvent
  | OutputEvent string string
  | StoppedEvent string
  | TerminatedEvent

text \<open>
  The body of a successful response. A stack frame of the body is the replay frame it is
  made of; its source decoration is not recorded. A scope is its name, its variables
  reference and its \<open>expensive\<close> flag; an exception info is its identifier and its
  description.
\<close>

datatype ResponseBody =
    NoBody
  | CapabilitiesBody "(string \<times> bool) list"
  | ThreadsBody "(nat \<times> string) list"
  | StackTraceBody "ReplayFrame list" nat
  | ScopesBody "(string \<times> int \<times> bool) list"
  | VariablesBody "Variable list"
  | EvaluateBody string "string option" int
  | BreakpointsBody "(bool \<times> int) list"
  | ExceptionInfoBody string string

text \<open>
  A promise of an asynchronous handler that rejects reaches the host as no response at
  all: \<open>UnhandledRejection\<close>.
\<close>

datatype Message =
    Response ResponseBody
  | ErrorResponse nat string
  | Event Event
  | UnhandledRejection LoadError

datatype VariableContainer =
    LocalsContainer "string option"
  | ArgumentsContainer "string option"
  | MetaContainer "string option"
  | ObjectContainer "VariableMap option"

record LaunchArgs =
  arg_errorId :: "string option"
  arg_traceId :: "string option"
  arg_spanId :: "string option"
  arg_timestamp :: "int option"
  arg_trace :: bool
  arg_startLine :: "int option"
  arg_startSourcePath :: "string option"
  arg_errorTitle :: "string option"

text \<open>
  \<open>dataSource.loadStackTrace\<close> is outside the program: it resolves to a stack trace
  or rejects, with the message of the error when it is an \<open>Error\<close>. A launch request
  comes with the outcome of the call it makes.
\<close>

datatype StackTraceOutcome = StackLoaded StackTrace | StackFailed "string option"

text \<open>What the session is constructed with and what it calls outside the program.\<close>

record Env =
  path_normalize :: "string \<Rightarrow> string"
  loadVariables :: Loader
  shouldSkipFrame :: "(string option \<Rightarrow> bool) option"
  numberToString :: "jsnumber \<Rightarrow> string"

record Session =
  runtime :: "ReplayRuntime option"
  variableHandles :: "VariableContainer list"
  pendingBreakpoints :: "(string option \<times> int list) list"
  startLineHint :: "int option"
  startSourcePathHint :: "string option"
  terminationMessageSent :: bool
  errorSummary :: "string option"

definition newSession :: Session where
  "newSession =
     \<lparr> runtime = None, variableHandles = [], pendingBreakpoints = [], startLineHint = None,
       startSourcePathHint = None, terminationMessageSent = False, errorSummary = None \<rparr>"

datatype Request =
    InitializeRequest
  | ConfigurationDoneRequest
  | LaunchRequest LaunchArgs StackTraceOutcome
  | ThreadsRequest
  | StackTraceRequest "int option" "int option"
  | ScopesRequest int
  | VariablesRequest int
  | EvaluateRequest "string option" "int option"
  | ContinueRequest
  | NextRequest
  | StepInRequest
  | StepOutRequest
  | StepBackRequest
  | ReverseContinueRequest
  | RestartFrameRequest "int option"
  | TerminateRequest
  | SetBreakPointsRequest "string option" "int list option"
  | ExceptionInfoRequest

subsection \<open>Helpers of the language and the library\<close>

text \<open>\<open>a || b\<close> on optional texts: the first that is present and not empty.\<close>

definition orText :: "string option \<Rightarrow> string option \<Rightarrow> string option" where
  "orText a b = (case a of Some x \<Rightarrow> if x = [] then b else Some x | None \<Rightarrow> b)"

text \<open>\<open>Map.prototype.set\<close>: a known key keeps its place, a new one is added last.\<close>

definition mapSet :: "'k \<Rightarrow> 'v \<Rightarrow> ('k \<times> 'v) list \<Rightarrow> ('k \<times> 'v) list" where
  "mapSet k v m =
     (if k \<in> fst ` set m then map (\<lambda>e. if fst e = k then (k, v) else e) m else m @ [(k, v)])"

text \<open>\<open>Array.prototype.slice(start, end)\<close>.\<close>

definition jsSlice :: "'a list \<Rightarrow> int \<Rightarrow> int \<Rightarrow> 'a list" where
  "jsSlice xs start fin =
     (let len = int (length xs);
          k = (if start < 0 then max (len + start) 0 else min start len);
          f = (if fin < 0 then max (len + fin) 0 else min fin len) in
      take (nat (f - k)) (drop (nat k) xs))"

text \<open>\<open>Handles\<close> of the adapter library: the first handle is 1000.\<close>

definition createHandle :: "VariableContainer \<Rightarrow> Session \<Rightarrow> int \<times> Session" where
  "createHandle c s =
     (1000 + int (length (variableHandles s)), s\<lparr>variableHandles := variableHandles s @ [c]\<rparr>)"

definition getHandle :: "Session \<Rightarrow> int \<Rightarrow> VariableContainer option" where
  "getHandle s h = element_at (variableHandles s) (h - 1000)"

text \<open>\<open>String.prototype.split('.')\<close> followed by \<open>filter(Boolean)\<close>.\<close>

fun splitDots :: "string \<Rightarrow> string \<Rightarrow> string list" where
  "splitDots acc [] = [rev acc]"
| "splitDots acc (c # cs) = (if c = CHR ''.'' then rev acc # splitDots [] cs else splitDots (c # acc) cs)"

definition pathSegments :: "string \<Rightarrow> string list" where
  "pathSegments expression = filter (\<lambda>seg. seg \<noteq> []) (splitDots [] expression)"

subsection \<open>Private methods\<close>

definition emitTerminationOutput :: "Session \<Rightarrow> Message list \<times> Session" where
  "emitTerminationOutput s =
     (if terminationMessageSent s then ([], s)
      else
        (let msg = (case orText (errorSummary s) None of
                      Some e \<Rightarrow> ''Replay finished: '' @ e
                    | None \<Rightarrow> ''Replay finished'') in
         ([Event (OutputEvent (msg @ [char_of (10 :: nat)]) ''console'')],
          s\<lparr>terminationMessageSent := True\<rparr>)))"

text \<open>\<open>!this.runtime || this.runtime.isTerminated()\<close>.\<close>

definition noLiveRuntime :: "Session \<Rightarrow> bool" where
  "noLiveRuntime s = (case runtime s of None \<Rightarrow> True | Some rt \<Rightarrow> isTerminated rt)"

definition stopWithReason :: "string \<Rightarrow> Session \<Rightarrow> Message list \<times> Session" where
  "stopWithReason reason s =
     (if noLiveRuntime s then
        (let (out, s') = emitTerminationOutput s in (out @ [Event TerminatedEvent], s'))
      else ([Event (StoppedEvent reason)], s))"

definition allowedReasons :: "string list" where
  "allowedReasons =
     [''step'', ''breakpoint'', ''exception'', ''pause'', ''entry'', ''goto'',
      ''function breakpoint'', ''data breakpoint'', ''instruction breakpoint'']"

definition postStep :: "StepResult \<Rightarrow> Session \<Rightarrow> Message list \<times> Session" where
  "postStep result s =
     (case result of
        Terminated \<Rightarrow>
          (let (out, s') = emitTerminationOutput s in (out @ [Event TerminatedEvent], s'))
      | Stopped r \<Rightarrow>
          ([Event (StoppedEvent (if r \<noteq> [] \<and> r \<in> set allowedReasons then r else ''step''))], s))"

definition syncCursorToHint :: "Env \<Rightarrow> Session \<Rightarrow> Session" where
  "syncCursorToHint env s =
     (case runtime s of
        None \<Rightarrow> s
      | Some rt \<Rightarrow>
          (case startLineHint s of
             None \<Rightarrow> s
           | Some l \<Rightarrow>
               s\<lparr> runtime :=
                     Some (setCursorByLocation (path_normalize env) (startSourcePathHint s) (Some l) rt),
                   startLineHint := None,
                   startSourcePathHint := None \<rparr>))"

definition filterFrames :: "Env \<Rightarrow> ReplayFrame list \<Rightarrow> ReplayFrame list" where
  "filterFrames env fs =
     (case shouldSkipFrame env of
        None \<Rightarrow> fs
      | Some skip \<Rightarrow>
          (let kept = filter (\<lambda>frame. \<not> skip (frame_file frame)) fs in
           if kept \<noteq> [] then kept else fs))"

definition convertValue ::
  "Env \<Rightarrow> string \<Rightarrow> VariableNode option \<Rightarrow> Session \<Rightarrow> Variable \<times> Session" where
  "convertValue env nm node_opt s =
     (case node_opt of
        None \<Rightarrow> (\<lparr> v_name = nm, v_type = None, v_value = ''undefined'', variablesReference = 0 \<rparr>, s)
      | Some node \<Rightarrow>
          (let valueText = formatNodeValue (numberToString env) node;
               flds = (case node_fields node of Some f \<Rightarrow> f | None \<Rightarrow> []);
               hasChildren = (length (map fst flds) > 0);
               (ref, s') = (if hasChildren then createHandle (ObjectContainer (Some flds)) s
                            else (0, s)) in
           (\<lparr> v_name = nm, v_type = node_type node,
              v_value = (case orText (Some valueText) (orText (node_type node) (Some ''value'')) of
                           Some t \<Rightarrow> t | None \<Rightarrow> []),
              variablesReference = ref \<rparr>, s')))"

primrec buildVariablesFromRecord ::
  "Env \<Rightarrow> VariableMap \<Rightarrow> Session \<Rightarrow> Variable list \<times> Session" where
  "buildVariablesFromRecord env [] s = ([], s)"
| "buildVariablesFromRecord env (kv # kvs) s =
     (let (v, s1) = convertValue env (fst kv) (Some (snd kv)) s;
          (vs, s2) = buildVariablesFromRecord env kvs s1 in
      (v # vs, s2))"

text \<open>A call of an asynchronous method of the runtime, with the runtime put back.\<close>

definition onRuntime ::
  "(ReplayRuntime \<Rightarrow> (LoadError + 'a) \<times> ReplayRuntime) \<Rightarrow> ReplayRuntime \<Rightarrow> Session
     \<Rightarrow> (LoadError + 'a) \<times> Session" where
  "onRuntime call rt s = (let (r, rt') = call rt in (r, s\<lparr>runtime := Some rt'\<rparr>))"

definition isTruthyText :: "string option \<Rightarrow> bool" where
  "isTruthyText t = (case t of Some x \<Rightarrow> x \<noteq> [] | None \<Rightarrow> False)"

definition inactivePlaceholder :: Variable where
  "inactivePlaceholder =
     \<lparr> v_name = ''(inactive frame)'', v_type = None,
       v_value = ''Variables load when the frame is active'', variablesReference = 0 \<rparr>"

definition resolveVariables ::
  "Env \<Rightarrow> VariableContainer option \<Rightarrow> Session \<Rightarrow> (LoadError + Variable list) \<times> Session" where
  "resolveVariables env container s =
     (case (container, runtime s) of
        (None, _) \<Rightarrow> (Inr [], s)
      | (_, None) \<Rightarrow> (Inr [], s)
      | (Some c, Some rt) \<Rightarrow>
          (let currentSnapshot = getCurrentSnapshotId rt;
               stale = (\<lambda>sid. isTruthyText sid \<and> sid \<noteq> currentSnapshot);
               build = (\<lambda>(r, s1). case r of
                           Inl e \<Rightarrow> (Inl e, s1)
                         | Inr record \<Rightarrow>
                             (let (vs, s2) = buildVariablesFromRecord env record s1 in (Inr vs, s2))) in
           case c of
             LocalsContainer sid \<Rightarrow>
               if stale sid then (Inr [inactivePlaceholder], s)
               else build (onRuntime (getLocals (loadVariables env) sid) rt s)
           | ArgumentsContainer sid \<Rightarrow>
               if stale sid then (Inr [inactivePlaceholder], s)
               else build (onRuntime (getArguments (loadVariables env) sid) rt s)
           | MetaContainer sid \<Rightarrow> build (Inr (getMeta rt sid), s)
           | ObjectContainer flds \<Rightarrow>
               build (Inr (case flds of Some f \<Rightarrow> f | None \<Rightarrow> []), s)))"

text \<open>
  The walk of \<open>lookupVariable\<close> along the segments after the root. A name is looked up
  among the own properties of an object; the root is read by the source with a plain
  property access, which would also find a name that every object inherits, and such
  names are left out of the model.
\<close>

primrec walkSegments :: "VariableNode \<Rightarrow> string list \<Rightarrow> VariableNode option" where
  "walkSegments node [] = Some node"
| "walkSegments node (segment # rest) =
     (case node_fields node of
        None \<Rightarrow> None
      | Some flds \<Rightarrow>
          (case getProperty flds segment of
             None \<Rightarrow> None
           | Some child \<Rightarrow> walkSegments child rest))"

definition lookupVariable ::
  "Env \<Rightarrow> string option \<Rightarrow> string \<Rightarrow> Session \<Rightarrow> (LoadError + VariableNode option) \<times> Session" where
  "lookupVariable env sid expression s =
     (case pathSegments expression of
        [] \<Rightarrow> (Inr None, s)
      | rootName # rest \<Rightarrow>
          (case runtime s of
             None \<Rightarrow> (Inr None, s)
           | Some rt \<Rightarrow>
               (case (if isTruthyText sid then getLocals (loadVariables env) sid rt else (Inr [], rt)) of
                  (Inl e, rt1) \<Rightarrow> (Inl e, s\<lparr>runtime := Some rt1\<rparr>)
                | (Inr ls, rt1) \<Rightarrow>
                    (case (if isTruthyText sid then getArguments (loadVariables env) sid rt1
                           else (Inr [], rt1)) of
                       (Inl e, rt2) \<Rightarrow> (Inl e, s\<lparr>runtime := Some rt2\<rparr>)
                     | (Inr as, rt2) \<Rightarrow>
                         (let meta = getMeta rt2 sid;
                              node = orElse (getProperty ls rootName)
                                       (orElse (getProperty as rootName) (getProperty meta rootName)) in
                          (Inr (case node of
                                  None \<Rightarrow> None
                                | Some n \<Rightarrow> walkSegments n rest),
                           s\<lparr>runtime := Some rt2\<rparr>))))))"

definition buildExceptionInfo :: "Session \<Rightarrow> ResponseBody option" where
  "buildExceptionInfo s =
     (case runtime s of
        None \<Rightarrow> None
      | Some rt \<Rightarrow>
          (let instrumentation = instrumentationInfo rt;
               exceptionId =
                 (case orElse (errorId instrumentation)
                         (orElse (spanId instrumentation) (traceId instrumentation)) of
                    Some i \<Rightarrow> i
                  | None \<Rightarrow> ''error-replay-exception'');
               description = (case errorSummary s of Some d \<Rightarrow> d | None \<Rightarrow> ''Recorded error replay'') in
           Some (ExceptionInfoBody exceptionId description)))"

subsection \<open>Request handlers\<close>

definition capabilities :: "(string \<times> bool) list" where
  "capabilities =
     [(''supportsConfigurationDoneRequest'', True),
      (''supportsEvaluateForHovers'', True),
      (''supportsSetVariable'', False),
      (''supportsTerminateRequest'', True),
      (''supportsDelayedStackTraceLoading'', True),
      (''supportsRestartFrame'', True),
      (''supportsStepBack'', False),
      (''supportsStepInTargetsRequest'', False),
      (''supportsExceptionInfoRequest'', True)]"

definition initializeRequest :: "Session \<Rightarrow> Message list \<times> Session" where
  "initializeRequest s = ([Response (CapabilitiesBody capabilities), Event InitializedEvent], s)"

definition configurationDoneRequest :: "Session \<Rightarrow> Message list \<times> Session" where
  "configurationDoneRequest s = ([Response NoBody], s)"

definition launchRequest ::
  "Env \<Rightarrow> LaunchArgs \<Rightarrow> StackTraceOutcome \<Rightarrow> Session \<Rightarrow> Message list \<times> Session" where
  "launchRequest env args outcome s =
     (case outcome of
        StackFailed message \<Rightarrow>
          ([ErrorResponse 1001
              (''Failed to load replay data: ''
                 @ (case message of Some m \<Rightarrow> m | None \<Rightarrow> ''unknown error''))], s)
      | StackLoaded stackTrace \<Rightarrow>
          (let rt0 = new_ReplayRuntime (path_normalize env) stackTrace
                       (Some \<lparr> traceId = arg_traceId args, spanId = arg_spanId args,
                                timestamp = arg_timestamp args,
                                sourceObjectUri = arg_startSourcePath args,
                                stackId = None, errorId = arg_errorId args \<rparr>);
               summary =
                 orText (arg_errorTitle args)
                   (orText (st_id stackTrace)
                      (orText (st_eventId stackTrace)
                         (orText (arg_errorId args)
                            (orText (st_traceId stackTrace) (Some ''Recorded error'')))));
               rt1 = foldl (\<lambda>rt (sourcePath, ls). snd (setBreakpoints (path_normalize env) sourcePath ls rt))
                       rt0 (pendingBreakpoints s);
               s1 = s\<lparr> runtime := Some rt1, errorSummary := summary,
                       startLineHint := arg_startLine args,
                       startSourcePathHint := arg_startSourcePath args \<rparr>;
               traced = (if arg_trace args
                         then [Event (OutputEvent (''Loaded replay data'' @ [char_of (10 :: nat)]) ''console'')]
                         else []);
               s2 = syncCursorToHint env s1;
               (stopped, s3) = stopWithReason ''entry'' s2 in
           (traced @ [Response NoBody] @ stopped, s3)))"

definition threadsRequest :: "Session \<Rightarrow> Message list \<times> Session" where
  "threadsRequest s =
     ([Response (ThreadsBody (case runtime s of Some rt \<Rightarrow> [(1, ''Error Replay'')] | None \<Rightarrow> []))], s)"

definition stackTraceRequest ::
  "Env \<Rightarrow> int option \<Rightarrow> int option \<Rightarrow> Session \<Rightarrow> Message list \<times> Session" where
  "stackTraceRequest env startFrame levels s =
     (case runtime s of
        None \<Rightarrow> ([Response (StackTraceBody [] 0)], s)
      | Some rt \<Rightarrow>
          if isTerminated rt then ([Response (StackTraceBody [] 0)], s)
          else
            (let start = (case startFrame of Some n \<Rightarrow> n | None \<Rightarrow> 0);
                 maxLevels = (case levels of Some n \<Rightarrow> n | None \<Rightarrow> totalFrames rt);
                 orderedFrames = jsSlice (getOrderedFrames rt) start (start + maxLevels);
                 filtered = filterFrames env orderedFrames in
             ([Response (StackTraceBody filtered (length filtered))], s)))"

definition scopesRequest :: "int \<Rightarrow> Session \<Rightarrow> Message list \<times> Session" where
  "scopesRequest frameId s =
     (case runtime s of
        None \<Rightarrow> ([Response (ScopesBody [])], s)
      | Some rt \<Rightarrow>
          (let sid = getSnapshotIdForFrame rt frameId;
               (h1, s1) = createHandle (LocalsContainer sid) s;
               (h2, s2) = createHandle (ArgumentsContainer sid) s1;
               (h3, s3) = createHandle (MetaContainer sid) s2 in
           ([Response (ScopesBody [(''Locals'', h1, False), (''Arguments'', h2, False),
                                    (''Replay Meta'', h3, True)])], s3)))"

definition variablesRequest :: "Env \<Rightarrow> int \<Rightarrow> Session \<Rightarrow> Message list \<times> Session" where
  "variablesRequest env reference s =
     (case resolveVariables env (getHandle s reference) s of
        (Inl e, s') \<Rightarrow> ([UnhandledRejection e], s')
      | (Inr variables, s') \<Rightarrow> ([Response (VariablesBody variables)], s'))"

definition evaluateRequest ::
  "Env \<Rightarrow> string option \<Rightarrow> int option \<Rightarrow> Session \<Rightarrow> Message list \<times> Session" where
  "evaluateRequest env expression frameId_opt s =
     (case runtime s of
        None \<Rightarrow> ([ErrorResponse 2001 ''Replay runtime not initialized.''], s)
      | Some rt \<Rightarrow>
          (let expr = trimString (case expression of Some e \<Rightarrow> e | None \<Rightarrow> []) in
           if expr = [] then ([Response (EvaluateBody [] None 0)], s)
           else
             (let frameId = (case frameId_opt of Some f \<Rightarrow> f | None \<Rightarrow> currentFrameIndex rt);
                  sid = getSnapshotIdForFrame rt frameId in
              case lookupVariable env sid expr s of
                (Inl e, s1) \<Rightarrow> ([UnhandledRejection e], s1)
              | (Inr None, s1) \<Rightarrow> ([Response (EvaluateBody ''not available'' None 0)], s1)
              | (Inr (Some valueNode), s1) \<Rightarrow>
                  (let (variable, s2) = convertValue env expr (Some valueNode) s1 in
                   ([Response (EvaluateBody (v_value variable) (v_type variable)
                                 (variablesReference variable))], s2)))))"

definition continueRequest :: "Env \<Rightarrow> Session \<Rightarrow> Message list \<times> Session" where
  "continueRequest env s =
     (let (result, s1) =
            (case runtime s of
               None \<Rightarrow> (Terminated, s)
             | Some rt \<Rightarrow>
                 (let (r, rt') = continueExecution (path_normalize env) rt in
                  (r, s\<lparr>runtime := Some rt'\<rparr>)));
          (events, s2) = postStep result s1 in
      ([Response NoBody] @ events, s2))"

definition performStepOver :: "Env \<Rightarrow> Session \<Rightarrow> Message list \<times> Session" where
  "performStepOver env s =
     (let (result, s1) =
            (case runtime s of
               None \<Rightarrow> (Terminated, s)
             | Some rt \<Rightarrow>
                 (let (r, rt') = stepOnce (path_normalize env) (Some ''next'') rt in
                  (r, s\<lparr>runtime := Some rt'\<rparr>)));
          (events, s2) = postStep result s1 in
      ([Response NoBody] @ events, s2))"

definition nextRequest :: "Env \<Rightarrow> Session \<Rightarrow> Message list \<times> Session" where
  "nextRequest env s = performStepOver env s"

definition performNoopStep :: "string \<Rightarrow> Session \<Rightarrow> Message list \<times> Session" where
  "performNoopStep source s =
     (if noLiveRuntime s then ([Response NoBody, Event TerminatedEvent], s)
      else
        ([Event (OutputEvent
                   ([CHR 0x22] @ source @ [CHR 0x22] @ '' not supported; staying on current frame.''
                      @ [char_of (10 :: nat)])
                   ''console''),
          Response NoBody,
          Event (StoppedEvent ''step'')], s))"

definition stepInRequest :: "Session \<Rightarrow> Message list \<times> Session" where
  "stepInRequest s = performNoopStep ''stepIn'' s"

definition stepOutRequest :: "Session \<Rightarrow> Message list \<times> Session" where
  "stepOutRequest s = performNoopStep ''stepOut'' s"

definition stepBackRequest :: "Session \<Rightarrow> Message list \<times> Session" where
  "stepBackRequest s =
     ([Response NoBody,
       Event (OutputEvent
                ([CHR 0x22] @ ''stepBack'' @ [CHR 0x22] @ '' not supported; use ''
                   @ [CHR 0x22] @ ''Restart Frame'' @ [CHR 0x22] @ '' to replay a frame.''
                   @ [char_of (10 :: nat)])
                ''console''),
       Event (StoppedEvent ''step'')], s)"

definition reverseContinueRequest :: "Session \<Rightarrow> Message list \<times> Session" where
  "reverseContinueRequest s =
     ([Response NoBody,
       Event (OutputEvent
                ([CHR 0x22] @ ''reverseContinue'' @ [CHR 0x22] @ '' not supported; use ''
                   @ [CHR 0x22] @ ''Restart Frame'' @ [CHR 0x22] @ '' to replay from a frame.''
                   @ [char_of (10 :: nat)])
                ''console''),
       Event (StoppedEvent ''step'')], s)"

definition restartFrameRequest :: "int option \<Rightarrow> Session \<Rightarrow> Message list \<times> Session" where
  "restartFrameRequest frameId_opt s =
     (case frameId_opt of
        None \<Rightarrow> ([Response NoBody], s)
      | Some frameId \<Rightarrow>
          ([Event (StoppedEvent ''restart''), Response NoBody],
           s\<lparr>runtime := map_option (setCursorByFrameId frameId) (runtime s)\<rparr>))"

definition terminateRequest :: "Session \<Rightarrow> Message list \<times> Session" where
  "terminateRequest s =
     (let (out, s') = (if noLiveRuntime s then emitTerminationOutput s else ([], s)) in
      ([Response NoBody] @ out @ [Event TerminatedEvent], s'))"

definition setBreakPointsRequest ::
  "Env \<Rightarrow> string option \<Rightarrow> int list option \<Rightarrow> Session \<Rightarrow> Message list \<times> Session" where
  "setBreakPointsRequest env sourcePath lines_opt s =
     (let ls = (case lines_opt of Some l \<Rightarrow> l | None \<Rightarrow> []);
          s1 = s\<lparr>pendingBreakpoints := mapSet sourcePath ls (pendingBreakpoints s)\<rparr>;
          s2 = s1\<lparr>runtime :=
                    map_option (\<lambda>rt. snd (setBreakpoints (path_normalize env) sourcePath ls rt))
                      (runtime s1)\<rparr> in
      ([Response (BreakpointsBody (map (\<lambda>l. (True, l)) ls))], s2))"

definition exceptionInfoRequest :: "Session \<Rightarrow> Message list \<times> Session" where
  "exceptionInfoRequest s =
     (case buildExceptionInfo s of
        None \<Rightarrow> ([ErrorResponse 3001 ''No exception info available.''], s)
      | Some info \<Rightarrow> ([Response info], s))"

text \<open>The dispatch of a request to its handler, and a sequence of requests.\<close>

fun handleRequest :: "Env \<Rightarrow> Request \<Rightarrow> Session \<Rightarrow> Message list \<times> Session" where
  "handleRequest env InitializeRequest s = initializeRequest s"
| "handleRequest env ConfigurationDoneRequest s = configurationDoneRequest s"
| "handleRequest env (LaunchRequest args outcome) s = launchRequest env args outcome s"
| "handleRequest env ThreadsRequest s = threadsRequest s"
| "handleRequest env (StackTraceRequest startFrame levels) s = stackTraceRequest env startFrame levels s"
| "handleRequest env (ScopesRequest frameId) s = scopesRequest frameId s"
| "handleRequest env (VariablesRequest reference) s = variablesRequest env reference s"
| "handleRequest env (EvaluateRequest expression frameId) s = evaluateRequest env expression frameId s"
| "handleRequest env ContinueRequest s = continueRequest env s"
| "handleRequest env NextRequest s = nextRequest env s"
| "handleRequest env StepInRequest s = stepInRequest s"
| "handleRequest env StepOutRequest s = stepOutRequest s"
| "handleRequest env StepBackRequest s = stepBackRequest s"
| "handleRequest env ReverseContinueRequest s = reverseContinueRequest s"
| "handleRequest env (RestartFrameRequest frameId) s = restartFrameRequest frameId s"
| "handleRequest env TerminateRequest s = terminateRequest s"
| "handleRequest env (SetBreakPointsRequest sourcePath ls) s = setBreakPointsRequest env sourcePath ls s"
| "handleRequest env ExceptionInfoRequest s = exceptionInfoRequest s"

primrec runRequests :: "Env \<Rightarrow> Request list \<Rightarrow> Session \<Rightarrow> Message list \<times> Session" where
  "runRequests env [] s = ([], s)"
| "runRequests env (r # rs) s =
     (let (out, s1) = handleRequest env r s;
          (rest, s2) = runRequests env rs s1 in
      (out @ rest, s2))"

text \<open>
  The termination summary is the output event of \<open>emitTerminationOutput\<close>; no other
  output of the session starts with \<open>Replay finished\<close>.
\<close>

definition isSummaryLine :: "Message \<Rightarrow> bool" where
  "isSummaryLine m =
     (case m of
        Event (OutputEvent text category) \<Rightarrow> take 15 text = ''Replay finished''
      | _ \<Rightarrow> False)"

definition countSummary :: "Message list \<Rightarrow> nat" where
  "countSummary msgs = length (filter isSummaryLine msgs)"

text \<open>
  Every terminate signal of the messages comes after exactly one summary line, given the
  number of summary lines sent before the messages.
\<close>

primrec signalsAfterSummary :: "nat \<Rightarrow> Message list \<Rightarrow> bool" where
  "signalsAfterSummary n [] = True"
| "signalsAfterSummary n (m # ms) =
     (if isSummaryLine m then signalsAfterSummary (Suc n) ms
      else if m = Event TerminatedEvent then n = 1 \<and> signalsAfterSummary n ms
      else signalsAfterSummary n ms)"

text \<open>
  The invariant of a session that has sent \<open>n\<close> summary lines: at most one was sent, the
  flag records it, the cursor of the runtime is in range, and a terminated runtime has had
  its summary line.
\<close>

definition session_ok :: "nat \<Rightarrow> Session \<Rightarrow> bool" where
  "session_ok n s =
     (n \<le> 1 \<and> (terminationMessageSent s \<longleftrightarrow> n = 1)
      \<and> (case runtime s of
            None \<Rightarrow> True
          | Some rt \<Rightarrow> cursor_ok rt \<and> (isTerminated rt \<longrightarrow> terminationMessageSent s)))"

text \<open>Two sessions with the same flag and the same position of the runtime, if any.\<close>

definition same_position :: "Session \<Rightarrow> Session \<Rightarrow> bool" where
  "same_position s s' =
     (terminationMessageSent s' = terminationMessageSent s
      \<and> (case (runtime s, runtime s') of
            (None, None) \<Rightarrow> True
          | (Some rt, Some rt') \<Rightarrow> cursor rt' = cursor rt \<and> frames rt' = frames rt
          | _ \<Rightarrow> False))"

section \<open>Example inputs\<close>

text \<open>
  \<open>path.normalize\<close> returns a path such as \<open>/a.js\<close>, which is already normal,
  unchanged; the examples use only such paths.
\<close>

definition keep_path :: "string \<Rightarrow> string" where
  "keep_path p = p"

definition rawFrame :: "string \<Rightarrow> int \<Rightarrow> string option \<Rightarrow> StackTraceFrame" where
  "rawFrame f l s =
     \<lparr> raw_id = None, raw_content = None, raw_tokens = None, raw_file = Some f,
       raw_function = None, raw_line = Some l, raw_column = None, raw_snapshotId = s,
       raw_snapshot_id = None \<rparr>"

definition traceOf :: "StackTraceFrame list \<Rightarrow> StackTrace" where
  "traceOf fs =
     \<lparr> st_id = None, st_frames = fs, st_eventId = None, st_spanId = None, st_traceId = None,
       st_timestamp = None \<rparr>"

text \<open>
  Three frames, crash site first: \<open>/a.js:7\<close>, called from \<open>/b.js:5\<close>, called from
  \<open>/a.js:1\<close>. The runtime is moved to the outermost frame, with a breakpoint at
  \<open>/b.js:5\<close> and then one at \<open>/a.js:7\<close>.
\<close>

definition abTrace :: StackTrace where
  "abTrace = traceOf [rawFrame ''/a.js'' 6 None, rawFrame ''/b.js'' 4 None, rawFrame ''/a.js'' 0 None]"

definition abRuntime :: ReplayRuntime where
  "abRuntime = runOps keep_path
     [SetCursorByFrameId 2, SetBreakpoints (Some ''/b.js'') [5], SetBreakpoints (Some ''/a.js'') [7]]
     (new_ReplayRuntime keep_path abTrace None)"

definition emptyTrace :: StackTrace where
  "emptyTrace = traceOf []"

text \<open>
  Three frames of which the crash site, first in the loaded order and last in the internal
  one, holds the snapshot \<open>s2\<close>.
\<close>

definition crashTrace :: StackTrace where
  "crashTrace =
     traceOf [rawFrame ''/app.js'' 9 (Some ''s2''), rawFrame ''/app.js'' 4 None,
              rawFrame ''/main.js'' 1 None]"

text \<open>A loader that always rejects, and one that resolves to one local.\<close>

definition rejectingLoader :: Loader where
  "rejectingLoader history sid = Rejects (LoaderRejected ''unavailable'')"

definition oneLocalLoader :: Loader where
  "oneLocalLoader history sid =
     Resolves (Some \<lparr> var_arguments = None,
                      var_locals = Some [(''n'', Payload (Some ''string'') False (Some ''x'') None None None)] \<rparr>)"

text \<open>\<open>String(n)\<close> on the natural numbers below \<open>10^21\<close>; the examples hold no other number.\<close>

definition naturalToString :: "jsnumber \<Rightarrow> string" where
  "naturalToString n =
     (case n of
        Finite q \<Rightarrow> string_of_nat (nat \<lfloor>q\<rfloor>)
      | PlusInfinity \<Rightarrow> ''Infinity''
      | MinusInfinity \<Rightarrow> ''-Infinity'')"

definition exampleEnv :: "Loader \<Rightarrow> Env" where
  "exampleEnv loader =
     \<lparr> path_normalize = keep_path, loadVariables = loader, shouldSkipFrame = None,
       numberToString = naturalToString \<rparr>"

definition exampleArgs :: LaunchArgs where
  "exampleArgs =
     \<lparr> arg_errorId = None, arg_traceId = None, arg_spanId = None, arg_timestamp = None,
       arg_trace = False, arg_startLine = None, arg_startSourcePath = None,
       arg_errorTitle = Some ''Boom'' \<rparr>"


section \<open>Properties of the cursor\<close>

lemma findIndex_range:
  "findIndex P xs = -1 \<or> (0 \<le> findIndex P xs \<and> findIndex P xs < int (length xs))"
  by (induction xs) (auto simp: Let_def)

lemma findInitialFrame_range:
  "0 \<le> findInitialFrame fs \<and> findInitialFrame fs \<le> int (length fs)"
proof (cases "fs = []")
  case True
  then show ?thesis by (simp add: findInitialFrame_def)
next
  case False
  have "findIndex has_snapshot (rev fs) = -1 \<or>
        (0 \<le> findIndex has_snapshot (rev fs) \<and> findIndex has_snapshot (rev fs) < int (length (rev fs)))"
    by (rule findIndex_range)
  with False show ?thesis
    by (auto simp: findInitialFrame_def Let_def)
qed

lemma hitsBreakpoint_None [simp]: "hitsBreakpoint pnorm bps None = False"
  by (simp add: hitsBreakpoint_def)

lemma findNextBreakpointIndex_found:
  "findNextBreakpointIndex pnorm bps fs i \<noteq> -1 \<Longrightarrow>
     i \<le> findNextBreakpointIndex pnorm bps fs i
     \<and> 0 \<le> findNextBreakpointIndex pnorm bps fs i
     \<and> findNextBreakpointIndex pnorm bps fs i < int (length fs)
     \<and> hitsAt pnorm bps fs (findNextBreakpointIndex pnorm bps fs i)
     \<and> (\<forall>j. i \<le> j \<and> j < findNextBreakpointIndex pnorm bps fs i \<longrightarrow> \<not> hitsAt pnorm bps fs j)"
proof (induction pnorm bps fs i rule: findNextBreakpointIndex.induct)
  case (1 pnorm bps fs i)
  show ?case
  proof (cases "i < int (length fs)")
    case False
    with "1.prems" show ?thesis
      by (simp add: findNextBreakpointIndex.simps [of pnorm bps fs i])
  next
    case inside: True
    show ?thesis
    proof (cases "hitsBreakpoint pnorm bps (element_at fs i)")
      case True
      then have eq: "findNextBreakpointIndex pnorm bps fs i = i"
        using inside by (simp add: findNextBreakpointIndex.simps [of pnorm bps fs i])
      from True have "0 \<le> i"
        by (cases "0 \<le> i") (simp_all add: element_at_def)
      with True inside eq show ?thesis by (auto simp: hitsAt_def)
    next
      case False
      then have eq: "findNextBreakpointIndex pnorm bps fs i = findNextBreakpointIndex pnorm bps fs (i + 1)"
        using inside by (simp add: findNextBreakpointIndex.simps [of pnorm bps fs i])
      with "1.prems" have ne: "findNextBreakpointIndex pnorm bps fs (i + 1) \<noteq> -1" by simp
      note ih = "1.IH" [OF inside False ne]
      have "\<not> hitsAt pnorm bps fs j" if "i \<le> j" "j < findNextBreakpointIndex pnorm bps fs (i + 1)" for j
      proof (cases "j = i")
        case True
        with False show ?thesis by (simp add: hitsAt_def)
      next
        case False
        with that have "i + 1 \<le> j" by simp
        with ih that show ?thesis by blast
      qed
      with ih eq show ?thesis by auto
    qed
  qed
qed

lemma findNextBreakpointIndex_none:
  "findNextBreakpointIndex pnorm bps fs i = -1 \<Longrightarrow>
     (\<forall>j. i \<le> j \<and> j < int (length fs) \<longrightarrow> \<not> hitsAt pnorm bps fs j)"
proof (induction pnorm bps fs i rule: findNextBreakpointIndex.induct)
  case (1 pnorm bps fs i)
  show ?case
  proof (cases "i < int (length fs)")
    case False
    then show ?thesis by auto
  next
    case inside: True
    show ?thesis
    proof (cases "hitsBreakpoint pnorm bps (element_at fs i)")
      case True
      then have eq: "findNextBreakpointIndex pnorm bps fs i = i"
        using inside by (simp add: findNextBreakpointIndex.simps [of pnorm bps fs i])
      from True have "0 \<le> i"
        by (cases "0 \<le> i") (simp_all add: element_at_def)
      with eq "1.prems" show ?thesis by simp
    next
      case False
      then have eq: "findNextBreakpointIndex pnorm bps fs i = findNextBreakpointIndex pnorm bps fs (i + 1)"
        using inside by (simp add: findNextBreakpointIndex.simps [of pnorm bps fs i])
      with "1.prems" have "findNextBreakpointIndex pnorm bps fs (i + 1) = -1" by simp
      note ih = "1.IH" [OF inside False this]
      have "\<not> hitsAt pnorm bps fs j" if "i \<le> j" "j < int (length fs)" for j
      proof (cases "j = i")
        case True
        with False show ?thesis by (simp add: hitsAt_def)
      next
        case False
        with that have "i + 1 \<le> j" by simp
        with ih that show ?thesis by blast
      qed
      then show ?thesis by blast
    qed
  qed
qed


lemma stepOnce_frames [simp]: "frames (snd (stepOnce pnorm reason rt)) = frames rt"
  by (simp add: stepOnce_def Let_def)

lemma continueExecution_frames [simp]: "frames (snd (continueExecution pnorm rt)) = frames rt"
  by (simp add: continueExecution_def Let_def)

lemma setCursorByFrameId_frames [simp]: "frames (setCursorByFrameId frameId rt) = frames rt"
  by (simp add: setCursorByFrameId_def Let_def)

lemma setCursorByLocation_frames [simp]: "frames (setCursorByLocation pnorm p l rt) = frames rt"
  by (simp add: setCursorByLocation_def Let_def split: option.splits)

lemma setBreakpoints_frames [simp]: "frames (snd (setBreakpoints pnorm p ls rt)) = frames rt"
  by (simp add: setBreakpoints_def Let_def split: option.splits)

lemma setBreakpoints_cursor [simp]: "cursor (snd (setBreakpoints pnorm p ls rt)) = cursor rt"
  by (simp add: setBreakpoints_def Let_def split: option.splits)

lemma stepOnce_cursor_ok: "cursor_ok rt \<Longrightarrow> cursor_ok (snd (stepOnce pnorm reason rt))"
  by (auto simp: cursor_ok_def stepOnce_def Let_def)

lemma continueExecution_cursor_ok: "cursor_ok (snd (continueExecution pnorm rt))"
proof (cases "findNextBreakpointIndex pnorm (breakpoints rt) (frames rt) (cursor rt + 1) = -1")
  case True
  then show ?thesis by (simp add: cursor_ok_def continueExecution_def Let_def)
next
  case False
  from findNextBreakpointIndex_found [OF False] False show ?thesis
    by (simp add: cursor_ok_def continueExecution_def Let_def)
qed

lemma setCursorByFrameId_cursor_ok: "cursor_ok rt \<Longrightarrow> cursor_ok (setCursorByFrameId frameId rt)"
  using findIndex_range [of "\<lambda>f. frame_id f = frameId" "frames rt"]
  by (auto simp: cursor_ok_def setCursorByFrameId_def Let_def)

lemma setCursorByLocation_cursor_ok:
  "cursor_ok rt \<Longrightarrow> cursor_ok (setCursorByLocation pnorm p l rt)"
proof (cases l)
  case None
  then show "cursor_ok rt \<Longrightarrow> ?thesis" by (simp add: setCursorByLocation_def)
next
  case (Some ln')
  assume ok: "cursor_ok rt"
  show ?thesis
  proof (cases "frames rt = []")
    case True
    with ok Some show ?thesis by (simp add: setCursorByLocation_def)
  next
    case False
    define Q :: "ReplayFrame \<Rightarrow> bool" where "Q = (\<lambda>f. (case (case p of None \<Rightarrow> None | Some q \<Rightarrow> if q = [] then None else Some (pnorm q)) of
                            None \<Rightarrow> True
                          | Some nf \<Rightarrow>
                              if nf = [] then True
                              else pnorm (case frame_file f of Some x \<Rightarrow> x | None \<Rightarrow> []) = nf)
                         \<and> line f = ln')"
    have eq: "setCursorByLocation pnorm p l rt =
              (if findIndex Q (frames rt) \<ge> 0 then rt\<lparr>cursor := findIndex Q (frames rt)\<rparr> else rt)"
      using Some False by (simp add: setCursorByLocation_def Let_def Q_def)
    from findIndex_range [of Q "frames rt"] ok show ?thesis
      unfolding eq by (auto simp: cursor_ok_def)
  qed
qed

lemma applyOp_cursor_ok: "cursor_ok rt \<Longrightarrow> cursor_ok (applyOp pnorm op rt)"
proof (cases op)
  case (SetBreakpoints p ls)
  then show "cursor_ok rt \<Longrightarrow> ?thesis" by (simp add: cursor_ok_def)
qed (simp_all add: stepOnce_cursor_ok continueExecution_cursor_ok
       setCursorByFrameId_cursor_ok setCursorByLocation_cursor_ok)

lemma applyOp_frames [simp]: "frames (applyOp pnorm op rt) = frames rt"
  by (cases op) simp_all

lemma runOps_cursor_ok: "cursor_ok rt \<Longrightarrow> cursor_ok (runOps pnorm ops rt)"
  unfolding runOps_def by (induction ops arbitrary: rt) (simp_all add: applyOp_cursor_ok)

lemma runOps_frames [simp]: "frames (runOps pnorm ops rt) = frames rt"
  unfolding runOps_def by (induction ops arbitrary: rt) simp_all

lemma new_ReplayRuntime_cursor_ok: "cursor_ok (new_ReplayRuntime pnorm st info)"
  using findInitialFrame_range [of "buildFrames pnorm (st_frames st)"]
  by (simp add: cursor_ok_def new_ReplayRuntime_def Let_def)

lemma length_buildFrames [simp]: "length (buildFrames pnorm fs) = length fs"
  by (simp add: buildFrames_def)

lemma frames_new_ReplayRuntime [simp]:
  "frames (new_ReplayRuntime pnorm st info) = buildFrames pnorm (st_frames st)"
  by (simp add: new_ReplayRuntime_def Let_def)

text \<open>
  C1. From the initial cursor placement on, after any sequence of \<open>stepOnce\<close>,
  \<open>continueExecution\<close>, \<open>setCursorByFrameId\<close>, \<open>setCursorByLocation\<close> (and
  \<open>setBreakpoints\<close>) on the runtime of any stack trace, the frame count is the number of
  loaded frames, the cursor lies in \<open>[0, frameCount]\<close>, and \<open>isTerminated\<close> is true exactly
  when the cursor is outside \<open>[0, frameCount)\<close>.
\<close>

theorem C1_cursor_stays_in_range:
  "int (length (frames (runOps pnorm ops (new_ReplayRuntime pnorm st info)))) = int (length (st_frames st))
   \<and> 0 \<le> cursor (runOps pnorm ops (new_ReplayRuntime pnorm st info))
   \<and> cursor (runOps pnorm ops (new_ReplayRuntime pnorm st info))
        \<le> int (length (frames (runOps pnorm ops (new_ReplayRuntime pnorm st info))))
   \<and> (isTerminated (runOps pnorm ops (new_ReplayRuntime pnorm st info)) \<longleftrightarrow>
        \<not> (0 \<le> cursor (runOps pnorm ops (new_ReplayRuntime pnorm st info))
           \<and> cursor (runOps pnorm ops (new_ReplayRuntime pnorm st info))
                < int (length (frames (runOps pnorm ops (new_ReplayRuntime pnorm st info))))))"
proof -
  let ?rt = "runOps pnorm ops (new_ReplayRuntime pnorm st info)"
  have "cursor_ok ?rt"
    by (rule runOps_cursor_ok) (rule new_ReplayRuntime_cursor_ok)
  then have "0 \<le> cursor ?rt" "cursor ?rt \<le> int (length (frames ?rt))"
    by (simp_all add: cursor_ok_def)
  moreover have "isTerminated ?rt \<longleftrightarrow> \<not> (0 \<le> cursor ?rt \<and> cursor ?rt < int (length (frames ?rt)))"
    by (auto simp: isTerminated_def)
  moreover have "int (length (frames ?rt)) = int (length (st_frames st))" by simp
  ultimately show ?thesis by blast
qed

lemma set_uniqueLines [simp]: "set (uniqueLines ls) = set ls"
  by (simp add: uniqueLines_def)

lemma breakpoints_setBreakpoints:
  "breakpoints (snd (setBreakpoints pnorm sourcePath ls rt)) =
     (case sourcePath of
        None \<Rightarrow> breakpoints rt
      | Some p \<Rightarrow> if p = [] then breakpoints rt else (breakpoints rt)(pnorm p \<mapsto> uniqueLines ls))"
  by (simp add: setBreakpoints_def Let_def split: option.splits)

lemma hitsAt_iff:
  "hitsAt pnorm bps fs j \<longleftrightarrow>
     (\<exists>f q s. element_at fs j = Some f \<and> frame_file f = Some q \<and> q \<noteq> []
              \<and> bps (pnorm q) = Some s \<and> line f \<in> set s)"
  by (auto simp: hitsAt_def hitsBreakpoint_def split: option.splits)

lemma hitsAt_single_path:
  assumes "dom bps \<subseteq> {pnorm p}"
  shows "hitsAt pnorm (bps(pnorm p \<mapsto> uniqueLines ls)) fs j \<longleftrightarrow> matchesPathLine pnorm p ls fs j"
proof -
  have other: "bps k = None" if "k \<noteq> pnorm p" for k
    using assms that by auto
  show ?thesis
    by (auto simp: hitsAt_def hitsBreakpoint_def matchesPathLine_def other split: option.splits)
qed

lemma continueExecution_stopped:
  assumes "findNextBreakpointIndex pnorm (breakpoints rt) (frames rt) (cursor rt + 1) \<noteq> -1"
  shows "fst (continueExecution pnorm rt) = Stopped ''breakpoint''"
    and "cursor rt < cursor (snd (continueExecution pnorm rt))"
    and "0 \<le> cursor (snd (continueExecution pnorm rt))"
    and "cursor (snd (continueExecution pnorm rt)) < int (length (frames rt))"
    and "hitsAt pnorm (breakpoints rt) (frames rt) (cursor (snd (continueExecution pnorm rt)))"
    and "\<forall>j. cursor rt < j \<and> j < cursor (snd (continueExecution pnorm rt))
           \<longrightarrow> \<not> hitsAt pnorm (breakpoints rt) (frames rt) j"
  using findNextBreakpointIndex_found [OF assms] assms
  by (auto simp: continueExecution_def Let_def)

lemma continueExecution_terminated:
  assumes "findNextBreakpointIndex pnorm (breakpoints rt) (frames rt) (cursor rt + 1) = -1"
  shows "fst (continueExecution pnorm rt) = Terminated"
    and "cursor (snd (continueExecution pnorm rt)) = int (length (frames rt))"
    and "\<forall>j. cursor rt < j \<and> j < int (length (frames rt))
           \<longrightarrow> \<not> hitsAt pnorm (breakpoints rt) (frames rt) j"
  using findNextBreakpointIndex_none [OF assms] assms
  by (auto simp: continueExecution_def Let_def)

text \<open>
  C2 (amended). For every frame list, breakpoint store and cursor not beyond the frame count:
  \<open>setBreakpoints(path, lines)\<close> replaces the lines stored for the normal form of a
  non-empty path (and stores nothing for an absent or empty one), and the following
  \<open>continueExecution()\<close> moves the cursor to the smallest index strictly greater than the
  current cursor whose frame hits a breakpoint of the store, that is, whose file is
  present, has as normal form some stored path, and whose line is among that path's lines,
  reporting the stop reason \<open>breakpoint\<close>; when the store held no other path these are
  exactly the frames matching \<open>(path, lines)\<close>. If there is no such index the cursor becomes
  the frame count and the runtime is terminated. The cursor never decreases, and it
  increases strictly whenever it was below the frame count.
\<close>

theorem C2_continue_lands_on_next_hit:
  fixes pnorm sourcePath ls rt
  defines "rt1 \<equiv> snd (setBreakpoints pnorm sourcePath ls rt)"
  defines "rt2 \<equiv> snd (continueExecution pnorm rt1)"
  assumes inv: "cursor rt \<le> int (length (frames rt))"
  shows "(case sourcePath of
            None \<Rightarrow> breakpoints rt1 = breakpoints rt
          | Some p \<Rightarrow>
              if p = [] then breakpoints rt1 = breakpoints rt
              else breakpoints rt1 = (breakpoints rt)(pnorm p \<mapsto> uniqueLines ls)
                   \<and> set (uniqueLines ls) = set ls
                   \<and> (dom (breakpoints rt) \<subseteq> {pnorm p} \<longrightarrow>
                        (\<forall>j. hitsAt pnorm (breakpoints rt1) (frames rt) j
                              \<longleftrightarrow> matchesPathLine pnorm p ls (frames rt) j)))
       \<and> (case fst (continueExecution pnorm rt1) of
            Stopped reason \<Rightarrow>
              reason = ''breakpoint''
              \<and> cursor rt < cursor rt2 \<and> cursor rt2 < int (length (frames rt))
              \<and> \<not> isTerminated rt2
              \<and> hitsAt pnorm (breakpoints rt1) (frames rt) (cursor rt2)
              \<and> (\<forall>j. cursor rt < j \<and> j < cursor rt2
                       \<longrightarrow> \<not> hitsAt pnorm (breakpoints rt1) (frames rt) j)
          | Terminated \<Rightarrow>
              cursor rt2 = int (length (frames rt)) \<and> isTerminated rt2
              \<and> (\<forall>j. cursor rt < j \<and> j < int (length (frames rt))
                       \<longrightarrow> \<not> hitsAt pnorm (breakpoints rt1) (frames rt) j))
       \<and> cursor rt \<le> cursor rt2
       \<and> (cursor rt < int (length (frames rt)) \<longrightarrow> cursor rt < cursor rt2)"
proof -
  have fr1: "frames rt1 = frames rt" and cu1: "cursor rt1 = cursor rt"
    by (simp_all add: rt1_def)
  have store: "(case sourcePath of
            None \<Rightarrow> breakpoints rt1 = breakpoints rt
          | Some p \<Rightarrow>
              if p = [] then breakpoints rt1 = breakpoints rt
              else breakpoints rt1 = (breakpoints rt)(pnorm p \<mapsto> uniqueLines ls)
                   \<and> set (uniqueLines ls) = set ls
                   \<and> (dom (breakpoints rt) \<subseteq> {pnorm p} \<longrightarrow>
                        (\<forall>j. hitsAt pnorm (breakpoints rt1) (frames rt) j
                              \<longleftrightarrow> matchesPathLine pnorm p ls (frames rt) j)))"
    by (simp add: rt1_def breakpoints_setBreakpoints hitsAt_single_path split: option.splits)
  show ?thesis
  proof (cases "findNextBreakpointIndex pnorm (breakpoints rt1) (frames rt1) (cursor rt1 + 1) = -1")
    case True
    note t = continueExecution_terminated [OF True]
    from t(2) have "isTerminated rt2" by (simp add: rt2_def isTerminated_def)
    with t inv store show ?thesis
      by (simp add: rt2_def fr1 cu1)
  next
    case False
    note f = continueExecution_stopped [OF False]
    from f(3,4) have "\<not> isTerminated rt2" by (simp add: rt2_def isTerminated_def)
    with f inv store show ?thesis
      by (simp add: rt2_def fr1 cu1)
  qed
qed

text \<open>
  C2, as stated, fails twice on \<open>abRuntime\<close>: from cursor 0, with the lines of
  \<open>/a.js\<close> just set to \<open>{7}\<close>, \<open>continueExecution\<close> stops at index 1, a frame of
  \<open>/b.js\<close> that does not match \<open>(/a.js, 7)\<close>, although index 2 does; and on the
  terminated runtime (cursor 3 of 3 frames) it leaves the cursor at 3, a value equal to the
  one before the call.
\<close>

theorem C2_counterexample:
  "cursor abRuntime = 0
   \<and> cursor (snd (continueExecution keep_path abRuntime)) = 1
   \<and> \<not> matchesPathLine keep_path ''/a.js'' [7] (frames abRuntime) 1
   \<and> matchesPathLine keep_path ''/a.js'' [7] (frames abRuntime) 2
   \<and> cursor (snd (continueExecution keep_path (snd (continueExecution keep_path
        (snd (continueExecution keep_path abRuntime)))))) = 3
   \<and> cursor (snd (continueExecution keep_path (snd (continueExecution keep_path
        (snd (continueExecution keep_path (snd (continueExecution keep_path abRuntime)))))))) = 3"
  by code_simp

theorem C2_witness:
  "cursor abRuntime \<le> int (length (frames abRuntime))
   \<and> cursor abRuntime
        \<le> cursor (snd (continueExecution keep_path
                     (snd (setBreakpoints keep_path (Some ''/a.js'') [7] abRuntime))))"
proof -
  have h: "cursor abRuntime \<le> int (length (frames abRuntime))" by code_simp
  show ?thesis
    by (rule conjI [OF h
          C2_continue_lands_on_next_hit [OF h, THEN conjunct2, THEN conjunct2, THEN conjunct1]])
qed

text \<open>
  C10. \<open>setBreakpoints\<close> with an undefined source path returns the empty line list and
  leaves the runtime, and with it the lines stored for every path, unchanged.
\<close>

theorem C10_setBreakpoints_without_path:
  "fst (setBreakpoints pnorm None ls rt) = []
   \<and> snd (setBreakpoints pnorm None ls rt) = rt
   \<and> (\<forall>p. breakpoints (snd (setBreakpoints pnorm None ls rt)) p = breakpoints rt p)"
  by (simp add: setBreakpoints_def)


theorem C10_witness:
  "fst (setBreakpoints keep_path None [3, 4] abRuntime) = []
   \<and> breakpoints (snd (setBreakpoints keep_path None [3, 4] abRuntime)) ''/a.js'' = Some [7]"
proof -
  have "breakpoints abRuntime ''/a.js'' = Some [7]" by code_simp
  with C10_setBreakpoints_without_path [of keep_path "[3, 4]" abRuntime]
  show ?thesis by simp
qed

theorem C1_witness:
  "0 \<le> cursor (runOps keep_path [ContinueExecution, SetCursorByFrameId 1, StepOnce None] abRuntime)
   \<and> cursor (runOps keep_path [StepOnce None, ContinueExecution]
        (new_ReplayRuntime keep_path abTrace None)) = 3
   \<and> isTerminated (runOps keep_path [StepOnce None, ContinueExecution]
        (new_ReplayRuntime keep_path abTrace None))"
proof -
  have c: "cursor (runOps keep_path [StepOnce None, ContinueExecution]
        (new_ReplayRuntime keep_path abTrace None)) = 3" by code_simp
  have a: "0 \<le> cursor (runOps keep_path [ContinueExecution, SetCursorByFrameId 1, StepOnce None] abRuntime)"
    using C1_cursor_stays_in_range
      [of keep_path "[SetCursorByFrameId 2, SetBreakpoints (Some ''/b.js'') [5],
          SetBreakpoints (Some ''/a.js'') [7], ContinueExecution, SetCursorByFrameId 1, StepOnce None]"
          abTrace None]
    by (simp add: abRuntime_def runOps_def)
  from C1_cursor_stays_in_range [of keep_path "[StepOnce None, ContinueExecution]" abTrace None] c
  have "isTerminated (runOps keep_path [StepOnce None, ContinueExecution]
        (new_ReplayRuntime keep_path abTrace None))"
    by (simp add: abTrace_def traceOf_def)
  with a c show ?thesis by blast
qed

section \<open>Properties of the value coercion\<close>

lemma js_Number_null: "js_Number ''null'' = None"
  by code_simp

text \<open>
  C7 (amended). For every declared type other than \<open>number\<close>, an absent type and
  \<open>boolean\<close> included, \<open>coerceValue\<close> applied to the preview text \<open>null\<close> returns the
  null value; for the declared type \<open>number\<close> it returns the text \<open>null\<close> itself, since
  the text does not parse as a number.
\<close>

theorem C7_null_preview:
  "coerceValue (Some ''null'') t = (if t = Some ''number'' then JString ''null'' else JNull)"
  by (simp add: coerceValue_def js_Number_null)

text \<open>C7, as stated, fails at the declared type \<open>number\<close>.\<close>

theorem C7_counterexample:
  "coerceValue (Some ''null'') (Some ''number'') \<noteq> JNull"
  by code_simp

theorem C7_witness:
  "coerceValue (Some ''null'') (Some ''boolean'') = JNull
   \<and> coerceValue (Some ''null'') (Some ''string'') = JNull
   \<and> coerceValue (Some ''null'') None = JNull
   \<and> coerceValue (Some ''null'') (Some ''number'') = JString ''null''"
  using C7_null_preview [of "Some ''boolean''"] C7_null_preview [of "Some ''string''"]
    C7_null_preview [of None] C7_null_preview [of "Some ''number''"]
  by simp

section \<open>Properties of the variable cache\<close>

lemma fetchVariables_eq:
  "fetchVariables loader sid rt =
     (Inr (fetchedBundle loader (loaderCalls rt) sid), rt\<lparr>loaderCalls := loaderCalls rt @ [sid]\<rparr>)"
  by (simp add: fetchVariables_def fetchVariables_try_def fetchedBundle_def Let_def
        split: LoadOutcome.splits)

lemma getOrLoadVariables_hit:
  "variablesCache rt sid = Some b \<Longrightarrow> getOrLoadVariables loader sid rt = (Inr b, rt)"
  by (simp add: getOrLoadVariables_def)

lemma getOrLoadVariables_miss:
  "variablesCache rt sid = None \<Longrightarrow>
     getOrLoadVariables loader sid rt =
       (Inr (fetchedBundle loader (loaderCalls rt) sid),
        rt\<lparr>loaderCalls := loaderCalls rt @ [sid],
           variablesCache := (variablesCache rt)(sid \<mapsto> fetchedBundle loader (loaderCalls rt) sid)\<rparr>)"
  by (simp add: getOrLoadVariables_def fetchVariables_eq)

lemma getOrLoadVariables_cache_ok:
  "cache_ok rt \<Longrightarrow> cache_ok (snd (getOrLoadVariables loader sid rt))"
proof (cases "variablesCache rt sid")
  case None
  assume ok: "cache_ok rt"
  with None have "sid \<notin> set (loaderCalls rt)" by (auto simp: cache_ok_def)
  with ok None show ?thesis
    by (auto simp: getOrLoadVariables_miss cache_ok_def)
next
  case (Some b)
  then show "cache_ok rt \<Longrightarrow> ?thesis" by (simp add: getOrLoadVariables_hit)
qed

lemma getOrLoadVariables_keeps:
  "variablesCache rt k = Some b \<Longrightarrow> variablesCache (snd (getOrLoadVariables loader sid rt)) k = Some b"
  by (cases "variablesCache rt sid") (auto simp: getOrLoadVariables_miss getOrLoadVariables_hit)

lemma getOrLoadVariables_Inr: "\<exists>b. fst (getOrLoadVariables loader sid rt) = Inr b"
  by (cases "variablesCache rt sid") (simp_all add: getOrLoadVariables_miss getOrLoadVariables_hit)

lemma snd_getLocals:
  "snd (getLocals loader sid_opt rt) =
     (case sid_opt of None \<Rightarrow> rt
      | Some sid \<Rightarrow> if sid = [] then rt else snd (getOrLoadVariables loader sid rt))"
  by (auto simp: getLocals_def split: option.splits prod.splits sum.splits)

lemma snd_getArguments:
  "snd (getArguments loader sid_opt rt) =
     (case sid_opt of None \<Rightarrow> rt
      | Some sid \<Rightarrow> if sid = [] then rt else snd (getOrLoadVariables loader sid rt))"
  by (auto simp: getArguments_def split: option.splits prod.splits sum.splits)

lemma cache_of_navigation [simp]:
  "variablesCache (applyOp pnorm op rt) = variablesCache rt"
  "loaderCalls (applyOp pnorm op rt) = loaderCalls rt"
  by (cases op; simp add: stepOnce_def continueExecution_def setCursorByFrameId_def
        setCursorByLocation_def setBreakpoints_def Let_def split: option.splits)+

lemma applyCall_cache_ok: "cache_ok rt \<Longrightarrow> cache_ok (applyCall loader pnorm c rt)"
proof (cases c)
  case (Navigate op)
  then show "cache_ok rt \<Longrightarrow> ?thesis" by (simp add: cache_ok_def)
next
  case (GetLocals sid)
  then show "cache_ok rt \<Longrightarrow> ?thesis"
    by (simp add: snd_getLocals getOrLoadVariables_cache_ok split: option.splits)
next
  case (GetArguments sid)
  then show "cache_ok rt \<Longrightarrow> ?thesis"
    by (simp add: snd_getArguments getOrLoadVariables_cache_ok split: option.splits)
qed

lemma applyCall_keeps:
  "variablesCache rt k = Some b \<Longrightarrow> variablesCache (applyCall loader pnorm c rt) k = Some b"
  by (cases c) (simp_all add: snd_getLocals snd_getArguments getOrLoadVariables_keeps split: option.splits)

lemma runCalls_cache_ok: "cache_ok rt \<Longrightarrow> cache_ok (runCalls loader pnorm calls rt)"
  unfolding runCalls_def by (induction calls arbitrary: rt) (simp_all add: applyCall_cache_ok)

lemma runCalls_keeps:
  "variablesCache rt k = Some b \<Longrightarrow> variablesCache (runCalls loader pnorm calls rt) k = Some b"
  unfolding runCalls_def by (induction calls arbitrary: rt) (simp_all add: applyCall_keeps)

lemma new_ReplayRuntime_cache_ok: "cache_ok (new_ReplayRuntime pnorm st info)"
  by (simp add: cache_ok_def new_ReplayRuntime_def Let_def)

lemma distinct_count_le_1: "distinct xs \<Longrightarrow> count_list xs x \<le> 1"
  by (induction xs) (auto simp: count_list_0_iff)

text \<open>
  C4. On the runtime of any stack trace, after any sequence of navigation calls and
  variable queries, each awaited before the next, the loader has been invoked at most
  once for any snapshot identifier. A query for an identifier that is not cached invokes
  the loader once, with an identifier it was never asked for before, returns the normal
  form of the result and stores it in the cache; a query for a cached identifier returns
  the cached bundle and leaves the runtime, and so the record of loader calls, unchanged,
  and the bundle stays cached over every later sequence of calls.
\<close>

theorem C4_loader_called_at_most_once:
  "count_list (loaderCalls (runCalls loader pnorm calls (new_ReplayRuntime pnorm st info))) sid \<le> 1
   \<and> (variablesCache (runCalls loader pnorm calls (new_ReplayRuntime pnorm st info)) sid = None \<longrightarrow>
        sid \<notin> set (loaderCalls (runCalls loader pnorm calls (new_ReplayRuntime pnorm st info)))
        \<and> fst (getOrLoadVariables loader sid (runCalls loader pnorm calls (new_ReplayRuntime pnorm st info)))
            = Inr (fetchedBundle loader
                     (loaderCalls (runCalls loader pnorm calls (new_ReplayRuntime pnorm st info))) sid)
        \<and> variablesCache
            (snd (getOrLoadVariables loader sid (runCalls loader pnorm calls (new_ReplayRuntime pnorm st info)))) sid
            = Some (fetchedBundle loader
                     (loaderCalls (runCalls loader pnorm calls (new_ReplayRuntime pnorm st info))) sid)
        \<and> loaderCalls
            (snd (getOrLoadVariables loader sid (runCalls loader pnorm calls (new_ReplayRuntime pnorm st info))))
            = loaderCalls (runCalls loader pnorm calls (new_ReplayRuntime pnorm st info)) @ [sid])
   \<and> (\<forall>b. variablesCache (runCalls loader pnorm calls (new_ReplayRuntime pnorm st info)) sid = Some b \<longrightarrow>
        getOrLoadVariables loader sid (runCalls loader pnorm calls (new_ReplayRuntime pnorm st info))
          = (Inr b, runCalls loader pnorm calls (new_ReplayRuntime pnorm st info))
        \<and> (\<forall>more. variablesCache
                     (runCalls loader pnorm more (runCalls loader pnorm calls (new_ReplayRuntime pnorm st info))) sid
                   = Some b))"
proof -
  let ?rt = "runCalls loader pnorm calls (new_ReplayRuntime pnorm st info)"
  have ok: "cache_ok ?rt"
    by (rule runCalls_cache_ok) (rule new_ReplayRuntime_cache_ok)
  then have "distinct (loaderCalls ?rt)" by (simp add: cache_ok_def)
  then have 1: "count_list (loaderCalls ?rt) sid \<le> 1" by (rule distinct_count_le_1)
  have 2: "sid \<notin> set (loaderCalls ?rt)" if "variablesCache ?rt sid = None"
    using ok that by (auto simp: cache_ok_def)
  show ?thesis
    using 1 2 by (auto simp: getOrLoadVariables_miss getOrLoadVariables_hit runCalls_keeps)
qed

theorem C4_witness:
  "count_list (loaderCalls (runCalls oneLocalLoader keep_path
        [GetLocals (Some ''s2''), GetArguments (Some ''s2''), Navigate (StepOnce None), GetLocals (Some ''s2'')]
        (new_ReplayRuntime keep_path crashTrace None))) ''s2'' \<le> 1
   \<and> loaderCalls (runCalls oneLocalLoader keep_path
        [GetLocals (Some ''s2''), GetArguments (Some ''s2''), Navigate (StepOnce None), GetLocals (Some ''s2'')]
        (new_ReplayRuntime keep_path crashTrace None)) = [''s2'']"
proof -
  have l: "loaderCalls (runCalls oneLocalLoader keep_path
        [GetLocals (Some ''s2''), GetArguments (Some ''s2''), Navigate (StepOnce None), GetLocals (Some ''s2'')]
        (new_ReplayRuntime keep_path crashTrace None)) = [''s2'']"
    by code_simp
  show ?thesis
    by (rule conjI [OF C4_loader_called_at_most_once [THEN conjunct1] l])
qed

section \<open>Properties of the preview\<close>







section \<open>Properties of the session\<close>

lemma countSummary_append [simp]: "countSummary (xs @ ys) = countSummary xs + countSummary ys"
  by (simp add: countSummary_def)

lemma countSummary_Nil [simp]: "countSummary [] = 0"
  by (simp add: countSummary_def)

lemma countSummary_Cons [simp]:
  "countSummary (m # ms) = (if isSummaryLine m then 1 else 0) + countSummary ms"
  by (simp add: countSummary_def)

lemma isSummaryLine_simps [simp]:
  "isSummaryLine (Response b) = False"
  "isSummaryLine (ErrorResponse i t) = False"
  "isSummaryLine (UnhandledRejection e) = False"
  "isSummaryLine (Event TerminatedEvent) = False"
  "isSummaryLine (Event (StoppedEvent r)) = False"
  "isSummaryLine (Event InitializedEvent) = False"
  "isSummaryLine (Event (OutputEvent t c)) = (take 15 t = ''Replay finished'')"
  by (simp_all add: isSummaryLine_def)

lemma emit_sent:
  "terminationMessageSent s \<Longrightarrow> emitTerminationOutput s = ([], s)"
  by (simp add: emitTerminationOutput_def)

lemma emit_fresh:
  "\<not> terminationMessageSent s \<Longrightarrow>
     \<exists>t. emitTerminationOutput s =
           ([Event (OutputEvent t ''console'')], s\<lparr>terminationMessageSent := True\<rparr>)
         \<and> take 15 t = ''Replay finished''"
  by (auto simp: emitTerminationOutput_def Let_def orText_def split: option.splits)

text \<open>What ending a request with the summary line and the terminate signal does.\<close>

lemma emit_then_terminate:
  assumes "n \<le> 1" "terminationMessageSent s \<longleftrightarrow> n = 1"
  shows "signalsAfterSummary n (fst (emitTerminationOutput s) @ [Event TerminatedEvent])"
proof (cases "terminationMessageSent s")
  case True
  with assms show ?thesis by (simp add: emit_sent)
next
  case False
  with assms have "n = 0" by auto
  with emit_fresh [OF False] show ?thesis by auto
qed

lemma session_ok_after_emit:
  assumes "n \<le> 1" "terminationMessageSent s \<longleftrightarrow> n = 1"
    and "case runtime s of None \<Rightarrow> True | Some rt \<Rightarrow> cursor_ok rt"
  shows "session_ok (n + countSummary (fst (emitTerminationOutput s))) (snd (emitTerminationOutput s))"
proof (cases "terminationMessageSent s")
  case True
  with assms show ?thesis by (simp add: emit_sent session_ok_def split: option.splits)
next
  case False
  with assms have "n = 0" by auto
  with emit_fresh [OF False] assms show ?thesis
    by (auto simp: session_ok_def split: option.splits)
qed

lemma stepOnce_Stopped_live:
  "cursor_ok rt \<Longrightarrow> fst (stepOnce pnorm reason rt) = Stopped r \<Longrightarrow>
     \<not> isTerminated (snd (stepOnce pnorm reason rt))"
  by (auto simp: stepOnce_def Let_def cursor_ok_def isTerminated_def split: if_splits)

lemma continueExecution_Stopped_live:
  assumes "fst (continueExecution pnorm rt) = Stopped r"
  shows "\<not> isTerminated (snd (continueExecution pnorm rt))"
proof -
  from assms have ne: "findNextBreakpointIndex pnorm (breakpoints rt) (frames rt) (cursor rt + 1) \<noteq> -1"
    by (auto simp: continueExecution_def Let_def split: if_splits)
  from findNextBreakpointIndex_found [OF ne] ne show ?thesis
    by (simp add: continueExecution_def Let_def isTerminated_def)
qed

lemma setCursorByFrameId_terminated:
  "isTerminated (setCursorByFrameId frameId rt) \<Longrightarrow> isTerminated rt"
  using findIndex_range [of "\<lambda>f. frame_id f = frameId" "frames rt"]
  by (auto simp: setCursorByFrameId_def Let_def isTerminated_def split: if_splits)


lemma setCursorByLocation_terminated:
  assumes "isTerminated (setCursorByLocation pnorm p l rt)"
  shows "isTerminated rt"
proof (cases "setCursorByLocation pnorm p l rt = rt")
  case True
  with assms show ?thesis by simp
next
  case False
  have ok: "cursor_ok (setCursorByLocation pnorm p l (rt\<lparr>cursor := 0\<rparr>))"
    by (rule setCursorByLocation_cursor_ok) (simp add: cursor_ok_def)
  have same: "cursor (setCursorByLocation pnorm p l rt) = cursor (setCursorByLocation pnorm p l (rt\<lparr>cursor := 0\<rparr>))
              \<or> setCursorByLocation pnorm p l rt = rt"
    by (auto simp: setCursorByLocation_def Let_def split: option.splits)
  with False have c: "cursor (setCursorByLocation pnorm p l rt) = cursor (setCursorByLocation pnorm p l (rt\<lparr>cursor := 0\<rparr>))"
    by blast
  from False have ne: "frames rt \<noteq> []"
    by (auto simp: setCursorByLocation_def Let_def split: option.splits)
  have lt: "cursor (setCursorByLocation pnorm p l rt) < int (length (frames rt))"
  proof (cases l)
    case None
    with False show ?thesis by (simp add: setCursorByLocation_def)
  next
    case (Some ln')
    define Q :: "ReplayFrame \<Rightarrow> bool" where
      "Q = (\<lambda>f. (case (case p of None \<Rightarrow> None | Some q \<Rightarrow> if q = [] then None else Some (pnorm q)) of
                            None \<Rightarrow> True
                          | Some nf \<Rightarrow>
                              if nf = [] then True
                              else pnorm (case frame_file f of Some x \<Rightarrow> x | None \<Rightarrow> []) = nf)
                         \<and> line f = ln')"
    have eq: "setCursorByLocation pnorm p l rt =
              (if findIndex Q (frames rt) \<ge> 0 then rt\<lparr>cursor := findIndex Q (frames rt)\<rparr> else rt)"
      using Some ne by (simp add: setCursorByLocation_def Let_def Q_def)
    from findIndex_range [of Q "frames rt"] False show ?thesis
      unfolding eq by (auto split: if_splits)
  qed
  from ok c have "0 \<le> cursor (setCursorByLocation pnorm p l rt)" by (simp add: cursor_ok_def)
  with lt assms show ?thesis by (simp add: isTerminated_def)
qed

lemma setBreakpoints_keeps [simp]:
  "cursor_ok (snd (setBreakpoints pnorm p ls rt)) = cursor_ok rt"
  "isTerminated (snd (setBreakpoints pnorm p ls rt)) = isTerminated rt"
  by (simp_all add: cursor_ok_def isTerminated_def)

lemma getOrLoadVariables_position [simp]:
  "cursor (snd (getOrLoadVariables loader sid rt)) = cursor rt"
  "frames (snd (getOrLoadVariables loader sid rt)) = frames rt"
  by (cases "variablesCache rt sid"; simp add: getOrLoadVariables_miss getOrLoadVariables_hit)+

lemma getLocals_position [simp]:
  "cursor (snd (getLocals loader sid rt)) = cursor rt"
  "frames (snd (getLocals loader sid rt)) = frames rt"
  by (simp_all add: snd_getLocals split: option.splits)

lemma getArguments_position [simp]:
  "cursor (snd (getArguments loader sid rt)) = cursor rt"
  "frames (snd (getArguments loader sid rt)) = frames rt"
  by (simp_all add: snd_getArguments split: option.splits)

lemma getLocals_Inr: "\<exists>m. fst (getLocals loader sid rt) = Inr m"
  using getOrLoadVariables_Inr [of loader _ rt]
  by (auto simp: getLocals_def split: option.splits prod.splits sum.splits) (metis fst_conv sum.distinct(1))+

lemma getArguments_Inr: "\<exists>m. fst (getArguments loader sid rt) = Inr m"
  using getOrLoadVariables_Inr [of loader _ rt]
  by (auto simp: getArguments_def split: option.splits prod.splits sum.splits) (metis fst_conv sum.distinct(1))+


lemma same_position_refl [simp]: "same_position s s"
  by (simp add: same_position_def split: option.splits)

lemma same_position_trans: "same_position a b \<Longrightarrow> same_position b c \<Longrightarrow> same_position a c"
  by (auto simp: same_position_def split: option.splits)

lemma session_ok_same_position: "session_ok n s \<Longrightarrow> same_position s s' \<Longrightarrow> session_ok n s'"
  by (auto simp: session_ok_def same_position_def cursor_ok_def isTerminated_def split: option.splits)

lemma createHandle_same [simp]: "same_position s (snd (createHandle c s))"
  by (simp add: createHandle_def same_position_def split: option.splits)

lemma convertValue_same: "same_position s (snd (convertValue env nm node s))"
  by (auto simp: convertValue_def Let_def createHandle_def same_position_def
        split: option.splits prod.splits)

lemma buildVariablesFromRecord_same: "same_position s (snd (buildVariablesFromRecord env m s))"
proof (induction m arbitrary: s)
  case Nil
  then show ?case by simp
next
  case (Cons kv kvs)
  have "same_position s (snd (convertValue env (fst kv) (Some (snd kv)) s))"
    by (rule convertValue_same)
  moreover have "same_position (snd (convertValue env (fst kv) (Some (snd kv)) s))
      (snd (buildVariablesFromRecord env kvs (snd (convertValue env (fst kv) (Some (snd kv)) s))))"
    by (rule Cons.IH)
  ultimately show ?case
    by (auto simp: Let_def split: prod.splits dest: same_position_trans)
qed

lemma onRuntime_getLocals_same:
  "runtime s = Some rt \<Longrightarrow> same_position s (snd (onRuntime (getLocals loader sid) rt s))"
  by (simp add: onRuntime_def same_position_def split: prod.splits)
     (metis getLocals_position snd_conv)

lemma onRuntime_getArguments_same:
  "runtime s = Some rt \<Longrightarrow> same_position s (snd (onRuntime (getArguments loader sid) rt s))"
  by (simp add: onRuntime_def same_position_def split: prod.splits)
     (metis getArguments_position snd_conv)

lemma onRuntime_getLocals_Inr: "\<exists>m. fst (onRuntime (getLocals loader sid) rt s) = Inr m"
  using getLocals_Inr [of loader sid rt] by (auto simp: onRuntime_def split: prod.splits)

lemma onRuntime_getArguments_Inr: "\<exists>m. fst (onRuntime (getArguments loader sid) rt s) = Inr m"
  using getArguments_Inr [of loader sid rt] by (auto simp: onRuntime_def split: prod.splits)

lemma resolveVariables_total:
  "(\<exists>vs. fst (resolveVariables env container s) = Inr vs)
   \<and> same_position s (snd (resolveVariables env container s))"
proof (cases container)
  case None
  then show ?thesis by (simp add: resolveVariables_def)
next
  case (Some c)
  show ?thesis
  proof (cases "runtime s")
    case None
    with Some show ?thesis by (simp add: resolveVariables_def)
  next
    case (Some rt)
    have build: "(\<exists>vs. fst ((\<lambda>(r, s1). case r of
                           Inl e \<Rightarrow> (Inl e, s1)
                         | Inr record \<Rightarrow>
                             (let (vs, s2) = buildVariablesFromRecord env record s1 in (Inr vs, s2))) x) = Inr vs)
                 \<and> same_position s (snd ((\<lambda>(r, s1). case r of
                           Inl e \<Rightarrow> (Inl e, s1)
                         | Inr record \<Rightarrow>
                             (let (vs, s2) = buildVariablesFromRecord env record s1 in (Inr vs, s2))) x))"
      if "\<exists>m. fst x = Inr m" "same_position s (snd x)" for x
    proof -
      from that obtain m s1 where x: "x = (Inr m, s1)" and sp: "same_position s s1"
        by (cases x) auto
      have "same_position s1 (snd (buildVariablesFromRecord env m s1))"
        by (rule buildVariablesFromRecord_same)
      with sp have "same_position s (snd (buildVariablesFromRecord env m s1))"
        by (rule same_position_trans)
      then show ?thesis
        by (auto simp: x Let_def split: prod.splits)
    qed
    show ?thesis
    proof (cases c)
      case (LocalsContainer sid)
      with \<open>container = Some c\<close> Some
        build [OF onRuntime_getLocals_Inr [of "loadVariables env" sid rt s]
                  onRuntime_getLocals_same [OF Some, of "loadVariables env" sid]]
      show ?thesis by (simp add: resolveVariables_def Let_def)
    next
      case (ArgumentsContainer sid)
      with \<open>container = Some c\<close> Some
        build [OF onRuntime_getArguments_Inr [of "loadVariables env" sid rt s]
                  onRuntime_getArguments_same [OF Some, of "loadVariables env" sid]]
      show ?thesis by (simp add: resolveVariables_def Let_def)
    next
      case (MetaContainer sid)
      with \<open>container = Some c\<close> Some build [of "(Inr (getMeta rt sid), s)"]
      show ?thesis by (simp add: resolveVariables_def Let_def)
    next
      case (ObjectContainer flds)
      with \<open>container = Some c\<close> Some
        build [of "(Inr (case flds of Some f \<Rightarrow> f | None \<Rightarrow> []), s)"]
      show ?thesis by (simp add: resolveVariables_def Let_def)
    qed
  qed
qed

lemma variablesRequest_total:
  "(\<exists>vs. fst (variablesRequest env reference s) = [Response (VariablesBody vs)])
   \<and> same_position s (snd (variablesRequest env reference s))"
  using resolveVariables_total [of env "getHandle s reference" s]
  by (auto simp: variablesRequest_def split: prod.splits sum.splits)


lemma lookupVariable_total:
  "(\<exists>r. fst (lookupVariable env sid expression s) = Inr r)
   \<and> same_position s (snd (lookupVariable env sid expression s))"
proof (cases "pathSegments expression")
  case Nil
  then show ?thesis by (simp add: lookupVariable_def)
next
  case (Cons rootName rest)
  show ?thesis
  proof (cases "runtime s")
    case None
    with Cons show ?thesis by (simp add: lookupVariable_def)
  next
    case (Some rt)
    obtain ls where l: "fst (getLocals (loadVariables env) sid rt) = Inr ls"
      using getLocals_Inr by blast
    define rt1 where "rt1 = (if isTruthyText sid then snd (getLocals (loadVariables env) sid rt) else rt)"
    obtain as where a: "fst (getArguments (loadVariables env) sid rt1) = Inr as"
      using getArguments_Inr by blast
    define rt2 where "rt2 = (if isTruthyText sid then snd (getArguments (loadVariables env) sid rt1) else rt1)"
    have pos: "cursor rt2 = cursor rt" "frames rt2 = frames rt"
      by (simp_all add: rt2_def rt1_def)
    have "\<exists>r. lookupVariable env sid expression s = (Inr r, s\<lparr>runtime := Some rt2\<rparr>)"
      using Cons Some l a
      by (cases "getLocals (loadVariables env) sid rt"; cases "getArguments (loadVariables env) sid rt1")
         (auto simp: lookupVariable_def Let_def rt1_def rt2_def)
    with pos Some show ?thesis
      by (auto simp: same_position_def)
  qed
qed

lemma evaluateRequest_quiet:
  "countSummary (fst (evaluateRequest env expression frameId s)) = 0
   \<and> Event TerminatedEvent \<notin> set (fst (evaluateRequest env expression frameId s))
   \<and> (\<forall>e. UnhandledRejection e \<notin> set (fst (evaluateRequest env expression frameId s)))
   \<and> same_position s (snd (evaluateRequest env expression frameId s))"
proof (cases "runtime s")
  case None
  then show ?thesis by (simp add: evaluateRequest_def)
next
  case (Some rt)
  define expr where "expr = trimString (case expression of Some e \<Rightarrow> e | None \<Rightarrow> [])"
  define sid where "sid = getSnapshotIdForFrame rt (case frameId of Some f \<Rightarrow> f | None \<Rightarrow> currentFrameIndex rt)"
  show ?thesis
  proof (cases "expr = []")
    case True
    with Some show ?thesis by (simp add: evaluateRequest_def expr_def Let_def)
  next
    case False
    from lookupVariable_total [of env sid expr s]
    obtain r s1 where lk: "lookupVariable env sid expr s = (Inr r, s1)" and sp: "same_position s s1"
      by (cases "lookupVariable env sid expr s") auto
    show ?thesis
    proof (cases r)
      case None
      with Some False lk sp show ?thesis
        by (simp add: evaluateRequest_def expr_def [symmetric] sid_def [symmetric] Let_def)
    next
      case (Some valueNode)
      have "same_position s1 (snd (convertValue env expr (Some valueNode) s1))"
        by (rule convertValue_same)
      with sp have "same_position s (snd (convertValue env expr (Some valueNode) s1))"
        by (rule same_position_trans)
      with Some \<open>runtime s = Some rt\<close> False lk show ?thesis
        by (auto simp: evaluateRequest_def expr_def [symmetric] sid_def [symmetric] Let_def
              split: prod.splits)
    qed
  qed
qed

lemma scopesRequest_quiet:
  "(\<exists>b. fst (scopesRequest frameId s) = [Response b])
   \<and> same_position s (snd (scopesRequest frameId s))"
  by (auto simp: scopesRequest_def Let_def createHandle_def same_position_def
        split: option.splits prod.splits)

lemma stackTraceRequest_quiet:
  "(\<exists>b. stackTraceRequest env startFrame levels s = ([Response b], s))"
  by (auto simp: stackTraceRequest_def Let_def split: option.splits)

lemma setBreakPointsRequest_quiet:
  "(\<exists>b. fst (setBreakPointsRequest env sourcePath ls s) = [Response b])
   \<and> same_position s (snd (setBreakPointsRequest env sourcePath ls s))"
  by (auto simp: setBreakPointsRequest_def Let_def same_position_def split: option.splits)

lemma exceptionInfoRequest_quiet:
  "countSummary (fst (exceptionInfoRequest s)) = 0
   \<and> Event TerminatedEvent \<notin> set (fst (exceptionInfoRequest s))
   \<and> snd (exceptionInfoRequest s) = s"
  by (auto simp: exceptionInfoRequest_def split: option.splits)

lemma performNoopStep_quiet:
  "countSummary (fst (performNoopStep source s)) = 0 \<and> snd (performNoopStep source s) = s"
  by (simp add: performNoopStep_def)

lemma postStep_ok:
  assumes "n \<le> 1" "terminationMessageSent s \<longleftrightarrow> n = 1"
    and "case runtime s of None \<Rightarrow> True | Some rt \<Rightarrow> cursor_ok rt"
    and "result = Terminated \<or> \<not> noLiveRuntime s"
  shows "session_ok (n + countSummary (fst (postStep result s))) (snd (postStep result s))"
    and "signalsAfterSummary n (fst (postStep result s))"
proof -
  show "session_ok (n + countSummary (fst (postStep result s))) (snd (postStep result s))"
  proof (cases result)
    case Terminated
    with session_ok_after_emit [OF assms(1,2,3)] show ?thesis
      by (simp add: postStep_def case_prod_beta)
  next
    case (Stopped r)
    with assms show ?thesis
      by (auto simp: postStep_def session_ok_def noLiveRuntime_def split: option.splits)
  qed
  show "signalsAfterSummary n (fst (postStep result s))"
  proof (cases result)
    case Terminated
    with emit_then_terminate [OF assms(1,2)] show ?thesis
      by (simp add: postStep_def case_prod_beta)
  next
    case (Stopped r)
    then show ?thesis by (simp add: postStep_def)
  qed
qed

lemma session_ok_weaken:
  assumes "session_ok n s"
  shows "n \<le> 1" "terminationMessageSent s \<longleftrightarrow> n = 1"
    "case runtime s of None \<Rightarrow> True | Some rt \<Rightarrow> cursor_ok rt"
  using assms by (auto simp: session_ok_def split: option.splits)

lemma continueRequest_ok:
  assumes "session_ok n s"
  shows "session_ok (n + countSummary (fst (continueRequest env s))) (snd (continueRequest env s))"
    and "signalsAfterSummary n (fst (continueRequest env s))"
proof -
  define s1 where "s1 = (case runtime s of None \<Rightarrow> s
      | Some rt \<Rightarrow> s\<lparr>runtime := Some (snd (continueExecution (path_normalize env) rt))\<rparr>)"
  define result where "result = (case runtime s of None \<Rightarrow> Terminated
      | Some rt \<Rightarrow> fst (continueExecution (path_normalize env) rt))"
  have eq: "continueRequest env s = (Response NoBody # fst (postStep result s1), snd (postStep result s1))"
    by (simp add: continueRequest_def s1_def result_def Let_def case_prod_beta split: option.splits)
  note w = session_ok_weaken [OF assms]
  have flag: "terminationMessageSent s1 \<longleftrightarrow> n = 1"
    using w(2) by (simp add: s1_def split: option.splits)
  have cur: "case runtime s1 of None \<Rightarrow> True | Some rt \<Rightarrow> cursor_ok rt"
    using w(3) by (simp add: s1_def continueExecution_cursor_ok split: option.splits)
  have live: "result = Terminated \<or> \<not> noLiveRuntime s1"
  proof (cases "runtime s")
    case None
    then show ?thesis by (simp add: result_def)
  next
    case (Some rt)
    show ?thesis
    proof (cases "fst (continueExecution (path_normalize env) rt)")
      case Terminated
      with Some show ?thesis by (simp add: result_def)
    next
      case (Stopped r)
      from continueExecution_Stopped_live [OF Stopped] Some show ?thesis
        by (simp add: s1_def noLiveRuntime_def)
    qed
  qed
  show "session_ok (n + countSummary (fst (continueRequest env s))) (snd (continueRequest env s))"
    using postStep_ok(1) [OF w(1) flag cur live] by (simp add: eq)
  show "signalsAfterSummary n (fst (continueRequest env s))"
    using postStep_ok(2) [OF w(1) flag cur live] by (simp add: eq)
qed

lemma nextRequest_ok:
  assumes "session_ok n s"
  shows "session_ok (n + countSummary (fst (nextRequest env s))) (snd (nextRequest env s))"
    and "signalsAfterSummary n (fst (nextRequest env s))"
proof -
  define s1 where "s1 = (case runtime s of None \<Rightarrow> s
      | Some rt \<Rightarrow> s\<lparr>runtime := Some (snd (stepOnce (path_normalize env) (Some ''next'') rt))\<rparr>)"
  define result where "result = (case runtime s of None \<Rightarrow> Terminated
      | Some rt \<Rightarrow> fst (stepOnce (path_normalize env) (Some ''next'') rt))"
  have eq: "nextRequest env s = (Response NoBody # fst (postStep result s1), snd (postStep result s1))"
    by (simp add: nextRequest_def performStepOver_def s1_def result_def Let_def case_prod_beta
          split: option.splits)
  note w = session_ok_weaken [OF assms]
  have flag: "terminationMessageSent s1 \<longleftrightarrow> n = 1"
    using w(2) by (simp add: s1_def split: option.splits)
  have cur: "case runtime s1 of None \<Rightarrow> True | Some rt \<Rightarrow> cursor_ok rt"
    using w(3) by (simp add: s1_def stepOnce_cursor_ok split: option.splits)
  have live: "result = Terminated \<or> \<not> noLiveRuntime s1"
  proof (cases "runtime s")
    case None
    then show ?thesis by (simp add: result_def)
  next
    case (Some rt)
    with w(3) have c: "cursor_ok rt" by simp
    show ?thesis
    proof (cases "fst (stepOnce (path_normalize env) (Some ''next'') rt)")
      case Terminated
      with Some show ?thesis by (simp add: result_def)
    next
      case (Stopped r)
      from stepOnce_Stopped_live [OF c Stopped] Some show ?thesis
        by (simp add: s1_def noLiveRuntime_def)
    qed
  qed
  show "session_ok (n + countSummary (fst (nextRequest env s))) (snd (nextRequest env s))"
    using postStep_ok(1) [OF w(1) flag cur live] by (simp add: eq)
  show "signalsAfterSummary n (fst (nextRequest env s))"
    using postStep_ok(2) [OF w(1) flag cur live] by (simp add: eq)
qed

lemma stopWithReason_ok:
  assumes "n \<le> 1" "terminationMessageSent s \<longleftrightarrow> n = 1"
    and "case runtime s of None \<Rightarrow> True | Some rt \<Rightarrow> cursor_ok rt"
  shows "session_ok (n + countSummary (fst (stopWithReason reason s))) (snd (stopWithReason reason s))"
    and "signalsAfterSummary n (fst (stopWithReason reason s))"
proof -
  show "session_ok (n + countSummary (fst (stopWithReason reason s))) (snd (stopWithReason reason s))"
  proof (cases "noLiveRuntime s")
    case True
    with session_ok_after_emit [OF assms] show ?thesis
      by (simp add: stopWithReason_def case_prod_beta)
  next
    case False
    with assms show ?thesis
      by (auto simp: stopWithReason_def session_ok_def noLiveRuntime_def split: option.splits)
  qed
  show "signalsAfterSummary n (fst (stopWithReason reason s))"
  proof (cases "noLiveRuntime s")
    case True
    with emit_then_terminate [OF assms(1,2)] show ?thesis
      by (simp add: stopWithReason_def case_prod_beta)
  next
    case False
    then show ?thesis by (simp add: stopWithReason_def)
  qed
qed

lemma foldl_setBreakpoints_cursor_ok:
  "cursor_ok (foldl (\<lambda>rt (sourcePath, ls). snd (setBreakpoints pnorm sourcePath ls rt)) rt0 pending)
     = cursor_ok rt0"
  by (induction pending arbitrary: rt0) (simp_all add: case_prod_beta)

lemma launchRequest_ok:
  assumes "session_ok n s"
  shows "session_ok (n + countSummary (fst (launchRequest env args outcome s))) (snd (launchRequest env args outcome s))"
    and "signalsAfterSummary n (fst (launchRequest env args outcome s))"
proof -
  note w = session_ok_weaken [OF assms]
  show "session_ok (n + countSummary (fst (launchRequest env args outcome s))) (snd (launchRequest env args outcome s))"
  proof (cases outcome)
    case (StackFailed message)
    with assms show ?thesis by (simp add: launchRequest_def)
  next
    case (StackLoaded stackTrace)
    define rt0 where "rt0 = new_ReplayRuntime (path_normalize env) stackTrace
                       (Some \<lparr> traceId = arg_traceId args, spanId = arg_spanId args,
                                timestamp = arg_timestamp args,
                                sourceObjectUri = arg_startSourcePath args,
                                stackId = None, errorId = arg_errorId args \<rparr>)"
    define rt1 where "rt1 = foldl (\<lambda>rt (sourcePath, ls). snd (setBreakpoints (path_normalize env) sourcePath ls rt))
                       rt0 (pendingBreakpoints s)"
    define summary where "summary =
                 orText (arg_errorTitle args)
                   (orText (st_id stackTrace)
                      (orText (st_eventId stackTrace)
                         (orText (arg_errorId args)
                            (orText (st_traceId stackTrace) (Some ''Recorded error'')))))"
    define s2 where "s2 = syncCursorToHint env (s\<lparr> runtime := Some rt1, errorSummary := summary,
                       startLineHint := arg_startLine args,
                       startSourcePathHint := arg_startSourcePath args \<rparr>)"
    have c1: "cursor_ok rt1"
      unfolding rt1_def foldl_setBreakpoints_cursor_ok rt0_def by (rule new_ReplayRuntime_cursor_ok)
    have flag: "terminationMessageSent s2 \<longleftrightarrow> n = 1"
      using w(2) by (simp add: s2_def syncCursorToHint_def split: option.splits)
    have cur: "case runtime s2 of None \<Rightarrow> True | Some rt \<Rightarrow> cursor_ok rt"
      using c1 by (simp add: s2_def syncCursorToHint_def setCursorByLocation_cursor_ok split: option.splits)
    have eq: "launchRequest env args outcome s =
          ((if arg_trace args
            then [Event (OutputEvent (''Loaded replay data'' @ [char_of (10 :: nat)]) ''console'')]
            else []) @ [Response NoBody] @ fst (stopWithReason ''entry'' s2),
           snd (stopWithReason ''entry'' s2))"
      using StackLoaded
      by (simp add: launchRequest_def Let_def case_prod_beta s2_def rt1_def rt0_def summary_def)
    show ?thesis
      using stopWithReason_ok(1) [OF w(1) flag cur, of "''entry''"] by (simp add: eq)
  qed
  show "signalsAfterSummary n (fst (launchRequest env args outcome s))"
  proof (cases outcome)
    case (StackFailed message)
    then show ?thesis by (simp add: launchRequest_def)
  next
    case (StackLoaded stackTrace)
    define rt0 where "rt0 = new_ReplayRuntime (path_normalize env) stackTrace
                       (Some \<lparr> traceId = arg_traceId args, spanId = arg_spanId args,
                                timestamp = arg_timestamp args,
                                sourceObjectUri = arg_startSourcePath args,
                                stackId = None, errorId = arg_errorId args \<rparr>)"
    define rt1 where "rt1 = foldl (\<lambda>rt (sourcePath, ls). snd (setBreakpoints (path_normalize env) sourcePath ls rt))
                       rt0 (pendingBreakpoints s)"
    define summary where "summary =
                 orText (arg_errorTitle args)
                   (orText (st_id stackTrace)
                      (orText (st_eventId stackTrace)
                         (orText (arg_errorId args)
                            (orText (st_traceId stackTrace) (Some ''Recorded error'')))))"
    define s2 where "s2 = syncCursorToHint env (s\<lparr> runtime := Some rt1, errorSummary := summary,
                       startLineHint := arg_startLine args,
                       startSourcePathHint := arg_startSourcePath args \<rparr>)"
    have flag: "terminationMessageSent s2 \<longleftrightarrow> n = 1"
      using w(2) by (simp add: s2_def syncCursorToHint_def split: option.splits)
    have eq: "launchRequest env args outcome s =
          ((if arg_trace args
            then [Event (OutputEvent (''Loaded replay data'' @ [char_of (10 :: nat)]) ''console'')]
            else []) @ [Response NoBody] @ fst (stopWithReason ''entry'' s2),
           snd (stopWithReason ''entry'' s2))"
      using StackLoaded
      by (simp add: launchRequest_def Let_def case_prod_beta s2_def rt1_def rt0_def summary_def)
    have sig: "signalsAfterSummary n (fst (stopWithReason ''entry'' s2))"
    proof (cases "noLiveRuntime s2")
      case True
      with emit_then_terminate [OF w(1) flag] show ?thesis
        by (simp add: stopWithReason_def case_prod_beta)
    next
      case False
      then show ?thesis by (simp add: stopWithReason_def)
    qed
    then show ?thesis by (simp add: eq)
  qed
qed


lemma terminateRequest_ok:
  assumes "session_ok n s"
  shows "session_ok (n + countSummary (fst (terminateRequest s))) (snd (terminateRequest s))"
proof (cases "noLiveRuntime s")
  case True
  with session_ok_after_emit [OF session_ok_weaken [OF assms]] show ?thesis
    by (simp add: terminateRequest_def case_prod_beta)
next
  case False
  with assms show ?thesis by (simp add: terminateRequest_def)
qed

lemma terminateRequest_signal:
  assumes "session_ok n s"
  shows "noLiveRuntime s \<Longrightarrow> signalsAfterSummary n (fst (terminateRequest s))"
    and "\<not> noLiveRuntime s \<Longrightarrow> terminateRequest s = ([Response NoBody, Event TerminatedEvent], s)"
    and "terminationMessageSent s \<Longrightarrow> terminateRequest s = ([Response NoBody, Event TerminatedEvent], s)"
proof -
  note w = session_ok_weaken [OF assms]
  show "noLiveRuntime s \<Longrightarrow> signalsAfterSummary n (fst (terminateRequest s))"
    using emit_then_terminate [OF w(1,2)] by (simp add: terminateRequest_def case_prod_beta)
  show "\<not> noLiveRuntime s \<Longrightarrow> terminateRequest s = ([Response NoBody, Event TerminatedEvent], s)"
    by (simp add: terminateRequest_def)
  show "terminationMessageSent s \<Longrightarrow> terminateRequest s = ([Response NoBody, Event TerminatedEvent], s)"
    by (simp add: terminateRequest_def emit_sent)
qed

lemma restartFrameRequest_ok:
  assumes "session_ok n s"
  shows "session_ok (n + countSummary (fst (restartFrameRequest frameId s))) (snd (restartFrameRequest frameId s))"
proof (cases frameId)
  case None
  with assms show ?thesis by (simp add: restartFrameRequest_def)
next
  case (Some f)
  show ?thesis
  proof (cases "runtime s")
    case None
    with Some assms show ?thesis by (simp add: restartFrameRequest_def session_ok_def)
  next
    case (Some rt)
    with assms have c: "cursor_ok rt" and t: "isTerminated rt \<longrightarrow> terminationMessageSent s"
      by (auto simp: session_ok_def)
    from setCursorByFrameId_cursor_ok [OF c] setCursorByFrameId_terminated [of f rt] t assms Some
      \<open>frameId = Some f\<close>
    show ?thesis by (auto simp: restartFrameRequest_def session_ok_def)
  qed
qed

lemma handleRequest_ok:
  assumes "session_ok n s"
  shows "session_ok (n + countSummary (fst (handleRequest env r s))) (snd (handleRequest env r s))"
proof (cases r)
  case InitializeRequest
  with assms show ?thesis by (simp add: initializeRequest_def)
next
  case ConfigurationDoneRequest
  with assms show ?thesis by (simp add: configurationDoneRequest_def)
next
  case (LaunchRequest args outcome)
  with launchRequest_ok(1) [OF assms] show ?thesis by simp
next
  case ThreadsRequest
  with assms show ?thesis by (simp add: threadsRequest_def)
next
  case (StackTraceRequest startFrame levels)
  with assms stackTraceRequest_quiet [of env startFrame levels s] show ?thesis by auto
next
  case (ScopesRequest frameId)
  with scopesRequest_quiet [of frameId s] session_ok_same_position [OF assms] show ?thesis by auto
next
  case (VariablesRequest reference)
  with variablesRequest_total [of env reference s] session_ok_same_position [OF assms] show ?thesis by auto
next
  case (EvaluateRequest expression frameId)
  with evaluateRequest_quiet [of env expression frameId s] session_ok_same_position [OF assms] show ?thesis by auto
next
  case ContinueRequest
  with continueRequest_ok(1) [OF assms] show ?thesis by simp
next
  case NextRequest
  with nextRequest_ok(1) [OF assms] show ?thesis by simp
next
  case StepInRequest
  with assms performNoopStep_quiet [of "''stepIn''" s] show ?thesis by (simp add: stepInRequest_def)
next
  case StepOutRequest
  with assms performNoopStep_quiet [of "''stepOut''" s] show ?thesis by (simp add: stepOutRequest_def)
next
  case StepBackRequest
  with assms show ?thesis by (simp add: stepBackRequest_def)
next
  case ReverseContinueRequest
  with assms show ?thesis by (simp add: reverseContinueRequest_def)
next
  case (RestartFrameRequest frameId)
  with restartFrameRequest_ok [OF assms] show ?thesis by simp
next
  case TerminateRequest
  with terminateRequest_ok [OF assms] show ?thesis by simp
next
  case (SetBreakPointsRequest sourcePath ls)
  with setBreakPointsRequest_quiet [of env sourcePath ls s] session_ok_same_position [OF assms] show ?thesis by auto
next
  case ExceptionInfoRequest
  with assms exceptionInfoRequest_quiet [of s] show ?thesis by simp
qed

lemma runRequests_ok:
  "session_ok n s \<Longrightarrow>
     session_ok (n + countSummary (fst (runRequests env rs s))) (snd (runRequests env rs s))"
proof (induction rs arbitrary: n s)
  case Nil
  then show ?case by simp
next
  case (Cons r rs)
  from handleRequest_ok [OF Cons.prems]
  have "session_ok (n + countSummary (fst (handleRequest env r s))) (snd (handleRequest env r s))" .
  from Cons.IH [OF this] show ?case
    by (simp add: case_prod_beta Let_def add.assoc)
qed

lemma newSession_ok: "session_ok 0 newSession"
  by (simp add: session_ok_def newSession_def)

text \<open>
  C6 (amended). Over every sequence of session requests, at most one termination summary
  line is ever sent, and the flag of the session records it. Whenever a launch, continue
  or next request sends the terminate signal, and whenever an explicit terminate request
  does so on a session that has no runtime or whose runtime is terminated, exactly one
  summary line has been sent before the signal. An explicit terminate request on a session
  whose runtime is not yet terminated sends its response and the terminate signal and no
  summary line; so does a later terminate request on a session whose summary line has been
  sent, without a duplicate.
\<close>

theorem C6_summary_line_and_terminate_signal:
  "countSummary (fst (runRequests env rs newSession)) \<le> 1
   \<and> (terminationMessageSent (snd (runRequests env rs newSession))
        \<longleftrightarrow> countSummary (fst (runRequests env rs newSession)) = 1)
   \<and> signalsAfterSummary (countSummary (fst (runRequests env rs newSession)))
        (fst (handleRequest env (LaunchRequest args outcome) (snd (runRequests env rs newSession))))
   \<and> signalsAfterSummary (countSummary (fst (runRequests env rs newSession)))
        (fst (handleRequest env ContinueRequest (snd (runRequests env rs newSession))))
   \<and> signalsAfterSummary (countSummary (fst (runRequests env rs newSession)))
        (fst (handleRequest env NextRequest (snd (runRequests env rs newSession))))
   \<and> (noLiveRuntime (snd (runRequests env rs newSession)) \<longrightarrow>
        signalsAfterSummary (countSummary (fst (runRequests env rs newSession)))
          (fst (handleRequest env TerminateRequest (snd (runRequests env rs newSession)))))
   \<and> (\<not> noLiveRuntime (snd (runRequests env rs newSession)) \<longrightarrow>
        handleRequest env TerminateRequest (snd (runRequests env rs newSession))
          = ([Response NoBody, Event TerminatedEvent], snd (runRequests env rs newSession)))
   \<and> (terminationMessageSent (snd (runRequests env rs newSession)) \<longrightarrow>
        handleRequest env TerminateRequest (snd (runRequests env rs newSession))
          = ([Response NoBody, Event TerminatedEvent], snd (runRequests env rs newSession)))"
proof -
  let ?log = "fst (runRequests env rs newSession)"
  let ?s = "snd (runRequests env rs newSession)"
  have ok: "session_ok (countSummary ?log) ?s"
    using runRequests_ok [OF newSession_ok, of env rs] by simp
  then have "countSummary ?log \<le> 1" "terminationMessageSent ?s \<longleftrightarrow> countSummary ?log = 1"
    by (simp_all add: session_ok_def)
  moreover note launchRequest_ok(2) [OF ok, of env args outcome] continueRequest_ok(2) [OF ok, of env]
    nextRequest_ok(2) [OF ok, of env] terminateRequest_signal [OF ok]
  ultimately show ?thesis by simp
qed

text \<open>
  C6, as stated, fails on a launched session that receives an explicit terminate request
  before it is terminated: the terminate signal is sent and no summary line was sent
  before it.
\<close>

theorem C6_counterexample:
  "fst (runRequests (exampleEnv rejectingLoader) [LaunchRequest exampleArgs (StackLoaded crashTrace), TerminateRequest] newSession)
     = [Response NoBody, Event (StoppedEvent ''entry''), Response NoBody, Event TerminatedEvent]
   \<and> countSummary (fst (runRequests (exampleEnv rejectingLoader)
         [LaunchRequest exampleArgs (StackLoaded crashTrace), TerminateRequest] newSession)) = 0"
  by code_simp

theorem C6_witness:
  "countSummary (fst (runRequests (exampleEnv rejectingLoader)
      [LaunchRequest exampleArgs (StackLoaded crashTrace), NextRequest, TerminateRequest] newSession)) \<le> 1
   \<and> noLiveRuntime (snd (runRequests (exampleEnv rejectingLoader)
      [LaunchRequest exampleArgs (StackLoaded crashTrace), NextRequest, TerminateRequest] newSession))
   \<and> signalsAfterSummary
        (countSummary (fst (runRequests (exampleEnv rejectingLoader)
           [LaunchRequest exampleArgs (StackLoaded crashTrace), NextRequest, TerminateRequest] newSession)))
        (fst (handleRequest (exampleEnv rejectingLoader) TerminateRequest
           (snd (runRequests (exampleEnv rejectingLoader)
              [LaunchRequest exampleArgs (StackLoaded crashTrace), NextRequest, TerminateRequest] newSession))))
   \<and> fst (runRequests (exampleEnv rejectingLoader)
          [LaunchRequest exampleArgs (StackLoaded crashTrace), NextRequest, TerminateRequest] newSession)
       = [Response NoBody, Event (StoppedEvent ''entry''),
          Response NoBody, Event (OutputEvent (''Replay finished: Boom'' @ [char_of (10 :: nat)]) ''console''),
          Event TerminatedEvent,
          Response NoBody, Event TerminatedEvent]"
proof -
  note t = C6_summary_line_and_terminate_signal
    [of "exampleEnv rejectingLoader"
        "[LaunchRequest exampleArgs (StackLoaded crashTrace), NextRequest, TerminateRequest]"
        exampleArgs "StackLoaded crashTrace"]
  have h: "noLiveRuntime (snd (runRequests (exampleEnv rejectingLoader)
      [LaunchRequest exampleArgs (StackLoaded crashTrace), NextRequest, TerminateRequest] newSession))"
    by code_simp
  have l: "fst (runRequests (exampleEnv rejectingLoader)
          [LaunchRequest exampleArgs (StackLoaded crashTrace), NextRequest, TerminateRequest] newSession)
       = [Response NoBody, Event (StoppedEvent ''entry''),
          Response NoBody, Event (OutputEvent (''Replay finished: Boom'' @ [char_of (10 :: nat)]) ''console''),
          Event TerminatedEvent,
          Response NoBody, Event TerminatedEvent]"
    by code_simp
  show ?thesis
    by (intro conjI)
       (rule t [THEN conjunct1],
        rule h,
        rule t [THEN conjunct2, THEN conjunct2, THEN conjunct2, THEN conjunct2, THEN conjunct2,
                THEN conjunct1, THEN mp, OF h],
        rule l)
qed

lemma buildFrames3:
  "buildFrames pnorm [f0, f1, f2] = [buildFrame pnorm f2 2, buildFrame pnorm f1 1, buildFrame pnorm f0 0]"
  by (simp add: buildFrames_def upt_rec numeral_2_eq_2 numeral_3_eq_3)

lemma buildFrame_sel [simp]:
  "snapshotId (buildFrame pnorm f i) = orElse (raw_snapshotId f) (raw_snapshot_id f)"
  "frame_id (buildFrame pnorm f i) = int i"
  by (simp_all add: buildFrame_def Let_def)

text \<open>
  C3 (amended). For a loaded trace of 3 frames in which the crash-site frame, first in the
  loaded order and internally the last index, holds snapshot \<open>s2\<close> and the other two
  frames hold none: the initial cursor is the crash-site frame, index 2. A \<open>stepOnce\<close>
  from there is past the last index and terminates with the cursor at 3. In a session
  launched without a start line, the launch stops at \<open>entry\<close>, the first \<open>next\<close>
  terminates the session and sends the one summary line before the terminate signal, and
  the second and the third \<open>next\<close> send the terminate signal again and no summary line,
  so that exactly one summary line is sent in all.
\<close>

theorem C3_first_next_terminates:
  assumes fs: "st_frames st = [f0, f1, f2]"
    and s0: "orElse (raw_snapshotId f0) (raw_snapshot_id f0) = Some ''s2''"
    and s1: "orElse (raw_snapshotId f1) (raw_snapshot_id f1) = None"
    and s2: "orElse (raw_snapshotId f2) (raw_snapshot_id f2) = None"
    and nohint: "arg_startLine args = None"
  shows "cursor (new_ReplayRuntime pnorm st info) = 2
    \<and> map frame_id (frames (new_ReplayRuntime pnorm st info)) = [2, 1, 0]
    \<and> map snapshotId (frames (new_ReplayRuntime pnorm st info)) = [None, None, Some ''s2'']
    \<and> fst (stepOnce pnorm reason (new_ReplayRuntime pnorm st info)) = Terminated
    \<and> cursor (snd (stepOnce pnorm reason (new_ReplayRuntime pnorm st info))) = 3
    \<and> fst (handleRequest env (LaunchRequest args (StackLoaded st)) newSession)
        = (if arg_trace args
           then [Event (OutputEvent (''Loaded replay data'' @ [char_of (10 :: nat)]) ''console'')]
           else []) @ [Response NoBody, Event (StoppedEvent ''entry'')]
    \<and> (\<exists>t. fst (runRequests env [NextRequest] (snd (runRequests env [LaunchRequest args (StackLoaded st)] newSession)))
            = [Response NoBody, Event (OutputEvent t ''console''), Event TerminatedEvent]
          \<and> isSummaryLine (Event (OutputEvent t ''console'')))
    \<and> fst (runRequests env [NextRequest] (snd (runRequests env [LaunchRequest args (StackLoaded st), NextRequest] newSession)))
        = [Response NoBody, Event TerminatedEvent]
    \<and> fst (runRequests env [NextRequest]
             (snd (runRequests env [LaunchRequest args (StackLoaded st), NextRequest, NextRequest] newSession)))
        = [Response NoBody, Event TerminatedEvent]
    \<and> countSummary (fst (runRequests env [LaunchRequest args (StackLoaded st), NextRequest, NextRequest, NextRequest] newSession)) = 1"
proof -
  have fr: "frames (new_ReplayRuntime pnorm st info) = [buildFrame pnorm f2 2, buildFrame pnorm f1 1, buildFrame pnorm f0 0]" for pnorm info
    by (simp add: fs buildFrames3)
  have cu: "cursor (new_ReplayRuntime pnorm st info) = 2" for pnorm info
    by (simp add: new_ReplayRuntime_def Let_def fs buildFrames3 findInitialFrame_def has_snapshot_def s0 s1 s2)
  have st: "stepOnce pnorm reason rt = (Terminated, rt\<lparr>cursor := 3\<rparr>)"
    if "length (frames rt) = 3" "cursor rt \<ge> 2" for pnorm reason rt
    using that by (simp add: stepOnce_def)
  define summary where "summary =
                 orText (arg_errorTitle args)
                   (orText (st_id st)
                      (orText (st_eventId st)
                         (orText (arg_errorId args)
                            (orText (st_traceId st) (Some ''Recorded error'')))))"
  have "\<exists>x. orText a (Some y) = Some x \<and> x \<noteq> []" if "y \<noteq> []" for a y
    using that by (auto simp: orText_def split: option.splits)
  then obtain x where x: "summary = Some x" "x \<noteq> []"
    unfolding summary_def
    by (metis (no_types, lifting) list.distinct(1))
  define rt0 where "rt0 = new_ReplayRuntime (path_normalize env) st
                       (Some \<lparr> traceId = arg_traceId args, spanId = arg_spanId args,
                                timestamp = arg_timestamp args,
                                sourceObjectUri = arg_startSourcePath args,
                                stackId = None, errorId = arg_errorId args \<rparr>)"
  define s1 where "s1 = newSession\<lparr> runtime := Some rt0, errorSummary := summary,
                       startLineHint := None,
                       startSourcePathHint := arg_startSourcePath args \<rparr>"
  define s2 where "s2 = s1\<lparr> runtime := Some (rt0\<lparr>cursor := 3\<rparr>), terminationMessageSent := True \<rparr>"
  have len0: "length (frames rt0) = 3" and cu0: "cursor rt0 = 2"
    by (simp_all add: rt0_def fs cu)
  have live: "\<not> isTerminated rt0"
    by (simp add: isTerminated_def len0 cu0)
  have L: "launchRequest env args (StackLoaded st) newSession =
        ((if arg_trace args
          then [Event (OutputEvent (''Loaded replay data'' @ [char_of (10 :: nat)]) ''console'')]
          else []) @ [Response NoBody, Event (StoppedEvent ''entry'')], s1)"
    using live
    by (simp add: launchRequest_def Let_def nohint syncCursorToHint_def stopWithReason_def
          noLiveRuntime_def s1_def rt0_def summary_def newSession_def)
  have N1: "nextRequest env s1 =
        ([Response NoBody, Event (OutputEvent (''Replay finished: '' @ x @ [char_of (10 :: nat)]) ''console''),
          Event TerminatedEvent], s2)"
    using st [of rt0 "path_normalize env" "Some ''next''"] len0 cu0 x
    by (simp add: nextRequest_def performStepOver_def postStep_def emitTerminationOutput_def
          orText_def Let_def s1_def s2_def newSession_def)
  have N2: "nextRequest env s2 = ([Response NoBody, Event TerminatedEvent], s2)"
    using st [of "rt0\<lparr>cursor := 3\<rparr>" "path_normalize env" "Some ''next''"] len0
    by (simp add: nextRequest_def performStepOver_def postStep_def emitTerminationOutput_def
          Let_def s2_def s1_def)
  have sm: "isSummaryLine (Event (OutputEvent (''Replay finished: '' @ x @ [char_of (10 :: nat)]) ''console''))"
    by simp
  have "fst (stepOnce pnorm reason (new_ReplayRuntime pnorm st info)) = Terminated
    \<and> cursor (snd (stepOnce pnorm reason (new_ReplayRuntime pnorm st info))) = 3"
    using st [of "new_ReplayRuntime pnorm st info" pnorm reason] by (simp add: fs cu)
  moreover have "map frame_id (frames (new_ReplayRuntime pnorm st info)) = [2, 1, 0]
    \<and> map snapshotId (frames (new_ReplayRuntime pnorm st info)) = [None, None, Some ''s2'']"
    by (simp add: fs buildFrames3 s0 s1 s2)
  moreover have "countSummary (fst (runRequests env [LaunchRequest args (StackLoaded st), NextRequest, NextRequest, NextRequest] newSession)) = 1"
    using sm by (simp add: L N1 N2)
  ultimately show ?thesis
    using sm by (simp add: cu L N1 N2)
qed

text \<open>
  C3, as stated, fails on \<open>crashTrace\<close>: the cursor starts on the crash-site frame, index
  2 of 3, and the first \<open>next\<close> does not stop on another frame but terminates the session.
\<close>

theorem C3_counterexample:
  "cursor (new_ReplayRuntime keep_path crashTrace None) = 2
   \<and> fst (stepOnce keep_path (Some ''next'') (new_ReplayRuntime keep_path crashTrace None)) = Terminated
   \<and> fst (runRequests (exampleEnv rejectingLoader) [LaunchRequest exampleArgs (StackLoaded crashTrace), NextRequest] newSession)
       = [Response NoBody, Event (StoppedEvent ''entry''),
          Response NoBody, Event (OutputEvent (''Replay finished: Boom'' @ [char_of (10 :: nat)]) ''console''),
          Event TerminatedEvent]"
  by code_simp

theorem C3_witness:
  "cursor (new_ReplayRuntime keep_path crashTrace None) = 2
   \<and> countSummary (fst (runRequests (exampleEnv rejectingLoader)
        [LaunchRequest exampleArgs (StackLoaded crashTrace), NextRequest, NextRequest, NextRequest] newSession)) = 1"
proof -
  have h: "st_frames crashTrace =
      [rawFrame ''/app.js'' 9 (Some ''s2''), rawFrame ''/app.js'' 4 None, rawFrame ''/main.js'' 1 None]"
    by (simp add: crashTrace_def traceOf_def)
  have h0: "orElse (raw_snapshotId (rawFrame ''/app.js'' 9 (Some ''s2'')))
                   (raw_snapshot_id (rawFrame ''/app.js'' 9 (Some ''s2''))) = Some ''s2''"
    by (simp add: rawFrame_def orElse_def)
  have h1: "orElse (raw_snapshotId (rawFrame ''/app.js'' 4 None))
                   (raw_snapshot_id (rawFrame ''/app.js'' 4 None)) = None"
    by (simp add: rawFrame_def orElse_def)
  have h2: "orElse (raw_snapshotId (rawFrame ''/main.js'' 1 None))
                   (raw_snapshot_id (rawFrame ''/main.js'' 1 None)) = None"
    by (simp add: rawFrame_def orElse_def)
  have h4: "arg_startLine exampleArgs = None"
    by (simp add: exampleArgs_def)
  note t = C3_first_next_terminates [OF h h0 h1 h2 h4, of keep_path None None "exampleEnv rejectingLoader"]
  show ?thesis
    by (intro conjI)
       (rule t [THEN conjunct1],
        rule t [THEN conjunct2, THEN conjunct2, THEN conjunct2, THEN conjunct2, THEN conjunct2,
                THEN conjunct2, THEN conjunct2, THEN conjunct2, THEN conjunct2])
qed

text \<open>
  C5. When the loader rejects, \<open>fetchVariables\<close> returns the empty bundle, and a query of
  an uncached snapshot returns the empty record. Whatever the loader does, \<open>getLocals\<close>
  and \<open>getArguments\<close> return a record and never an error, a variables request is answered
  with a variables response, and an evaluate request leaves no rejection unhandled.
\<close>

theorem C5_loader_rejection_is_absorbed:
  "(loader (loaderCalls rt) sid = Rejects e \<longrightarrow>
      fetchVariables loader sid rt = (Inr emptyCaptures, rt\<lparr>loaderCalls := loaderCalls rt @ [sid]\<rparr>)
      \<and> (variablesCache rt sid = None \<and> sid \<noteq> [] \<longrightarrow>
            fst (getLocals loader (Some sid) rt) = Inr []
            \<and> fst (getArguments loader (Some sid) rt) = Inr []))
   \<and> (\<exists>m. fst (getLocals loader sid_opt rt) = Inr m)
   \<and> (\<exists>m. fst (getArguments loader sid_opt rt) = Inr m)
   \<and> (\<exists>vs. fst (handleRequest env (VariablesRequest reference) s) = [Response (VariablesBody vs)])
   \<and> (\<forall>err. UnhandledRejection err \<notin> set (fst (handleRequest env (EvaluateRequest expression frameId) s)))"
proof -
  have "fetchVariables loader sid rt = (Inr emptyCaptures, rt\<lparr>loaderCalls := loaderCalls rt @ [sid]\<rparr>)"
    if "loader (loaderCalls rt) sid = Rejects e"
    using that by (simp add: fetchVariables_eq fetchedBundle_def)
  moreover have "fst (getLocals loader (Some sid) rt) = Inr []
            \<and> fst (getArguments loader (Some sid) rt) = Inr []"
    if "loader (loaderCalls rt) sid = Rejects e" "variablesCache rt sid = None" "sid \<noteq> []"
    using that
    by (simp add: getLocals_def getArguments_def getOrLoadVariables_miss fetchedBundle_def
          emptyCaptures_def)
  moreover note getLocals_Inr [of loader sid_opt rt] getArguments_Inr [of loader sid_opt rt]
    variablesRequest_total [of env reference s]
    evaluateRequest_quiet [of env expression frameId s]
  ultimately show ?thesis by simp
qed

theorem C5_witness:
  "fetchVariables rejectingLoader ''s2'' (new_ReplayRuntime keep_path crashTrace None)
     = (Inr emptyCaptures, (new_ReplayRuntime keep_path crashTrace None)\<lparr>loaderCalls := [''s2'']\<rparr>)
   \<and> fst (getLocals rejectingLoader (Some ''s2'') (new_ReplayRuntime keep_path crashTrace None)) = Inr []
   \<and> fst (runRequests (exampleEnv rejectingLoader)
        [LaunchRequest exampleArgs (StackLoaded crashTrace), ScopesRequest 0, VariablesRequest 1000] newSession)
      = [Response NoBody, Event (StoppedEvent ''entry''),
         Response (ScopesBody [(''Locals'', 1000, False), (''Arguments'', 1001, False),
                               (''Replay Meta'', 1002, True)]),
         Response (VariablesBody [])]"
proof -
  let ?rt = "new_ReplayRuntime keep_path crashTrace None"
  have r: "rejectingLoader (loaderCalls ?rt) ''s2'' = Rejects (LoaderRejected ''unavailable'')"
    by (simp add: rejectingLoader_def)
  have c: "variablesCache ?rt ''s2'' = None \<and> ''s2'' \<noteq> []"
    by (simp add: new_ReplayRuntime_def Let_def)
  have l: "loaderCalls ?rt = []"
    by (simp add: new_ReplayRuntime_def Let_def)
  note t = C5_loader_rejection_is_absorbed
    [of rejectingLoader ?rt "''s2''" "LoaderRejected ''unavailable''", THEN conjunct1, THEN mp, OF r]
  have a: "fetchVariables rejectingLoader ''s2'' ?rt = (Inr emptyCaptures, ?rt\<lparr>loaderCalls := [''s2'']\<rparr>)"
    using t [THEN conjunct1] by (simp add: l)
  have b: "fst (getLocals rejectingLoader (Some ''s2'') ?rt) = Inr []"
    using t [THEN conjunct2, THEN mp, OF c] by simp
  have d: "fst (runRequests (exampleEnv rejectingLoader)
        [LaunchRequest exampleArgs (StackLoaded crashTrace), ScopesRequest 0, VariablesRequest 1000] newSession)
      = [Response NoBody, Event (StoppedEvent ''entry''),
         Response (ScopesBody [(''Locals'', 1000, False), (''Arguments'', 1001, False),
                               (''Replay Meta'', 1002, True)]),
         Response (VariablesBody [])]"
    by code_simp
  from a b d show ?thesis by blast
qed

lemma foldl_setBreakpoints_position:
  "cursor (foldl (\<lambda>rt (sourcePath, ls). snd (setBreakpoints pnorm sourcePath ls rt)) rt0 pending) = cursor rt0
   \<and> frames (foldl (\<lambda>rt (sourcePath, ls). snd (setBreakpoints pnorm sourcePath ls rt)) rt0 pending) = frames rt0"
  by (induction pending arbitrary: rt0) (simp_all add: case_prod_beta)

lemma emit_runtime [simp]: "runtime (snd (emitTerminationOutput s)) = runtime s"
  by (simp add: emitTerminationOutput_def Let_def)

lemma stopWithReason_runtime [simp]: "runtime (snd (stopWithReason reason s)) = runtime s"
  by (simp add: stopWithReason_def case_prod_beta)

text \<open>
  C9. The runtime of a stack trace with no frames starts with cursor 0, is terminated
  before any navigation, and \<open>getOrderedFrames\<close> returns the empty list; a session
  launched with such a trace holds a runtime in that state, whatever breakpoints were
  pending and whatever start location the launch names.
\<close>

theorem C9_empty_trace_is_terminated:
  assumes "st_frames st = []"
  shows "cursor (new_ReplayRuntime pnorm st info) = 0
         \<and> isTerminated (new_ReplayRuntime pnorm st info)
         \<and> getOrderedFrames (new_ReplayRuntime pnorm st info) = []
         \<and> (\<exists>rt. runtime (snd (handleRequest env (LaunchRequest args (StackLoaded st)) s)) = Some rt
                \<and> cursor rt = 0 \<and> isTerminated rt \<and> getOrderedFrames rt = [])
         \<and> noLiveRuntime (snd (handleRequest env (LaunchRequest args (StackLoaded st)) s))"
proof -
  have rt: "cursor (new_ReplayRuntime pnorm st info) = 0 \<and> frames (new_ReplayRuntime pnorm st info) = []"
    for pnorm info
    using assms by (simp add: new_ReplayRuntime_def Let_def buildFrames_def findInitialFrame_def)
  have gone: "isTerminated r \<and> getOrderedFrames r = []" if "cursor r = 0" "frames r = []" for r
    using that by (simp add: isTerminated_def getOrderedFrames_def)
  define rt0 where "rt0 = new_ReplayRuntime (path_normalize env) st
                       (Some \<lparr> traceId = arg_traceId args, spanId = arg_spanId args,
                                timestamp = arg_timestamp args,
                                sourceObjectUri = arg_startSourcePath args,
                                stackId = None, errorId = arg_errorId args \<rparr>)"
  define rt1 where "rt1 = foldl (\<lambda>rt (sourcePath, ls). snd (setBreakpoints (path_normalize env) sourcePath ls rt))
                       rt0 (pendingBreakpoints s)"
  have p1: "cursor rt1 = 0" "frames rt1 = []"
    using rt [of "path_normalize env"] by (simp_all add: rt1_def rt0_def foldl_setBreakpoints_position)
  have sync: "setCursorByLocation q a b rt1 = rt1" for q a b
    using p1 by (simp add: setCursorByLocation_def split: option.splits)
  have "runtime (snd (launchRequest env args (StackLoaded st) s)) = Some rt1"
    by (simp add: launchRequest_def Let_def case_prod_beta syncCursorToHint_def sync
          rt1_def [symmetric] rt0_def [symmetric] split: option.splits)
  with p1 gone [OF p1] have
    "(\<exists>rt. runtime (snd (handleRequest env (LaunchRequest args (StackLoaded st)) s)) = Some rt
                \<and> cursor rt = 0 \<and> isTerminated rt \<and> getOrderedFrames rt = [])
     \<and> noLiveRuntime (snd (handleRequest env (LaunchRequest args (StackLoaded st)) s))"
    by (simp add: noLiveRuntime_def)
  with rt [of pnorm info] gone [of "new_ReplayRuntime pnorm st info"] show ?thesis by simp
qed

theorem C9_witness:
  "cursor (new_ReplayRuntime keep_path emptyTrace None) = 0
   \<and> isTerminated (new_ReplayRuntime keep_path emptyTrace None)
   \<and> getOrderedFrames (new_ReplayRuntime keep_path emptyTrace None) = []
   \<and> noLiveRuntime (snd (handleRequest (exampleEnv rejectingLoader)
        (LaunchRequest exampleArgs (StackLoaded emptyTrace)) newSession))"
proof -
  have h: "st_frames emptyTrace = []" by (simp add: emptyTrace_def traceOf_def)
  note t = C9_empty_trace_is_terminated
    [OF h, of keep_path None "exampleEnv rejectingLoader" exampleArgs newSession]
  show ?thesis
    by (intro conjI)
       (rule t [THEN conjunct1],
        rule t [THEN conjunct2, THEN conjunct1],
        rule t [THEN conjunct2, THEN conjunct2, THEN conjunct1],
        rule t [THEN conjunct2, THEN conjunct2, THEN conjunct2, THEN conjunct2])
qed

end
